theory Spec2Isabelle
  imports
    Complex_Main
    "HOL-Library.Multiset"
    "HOL-Library.Char_ord"
    "HOL-Library.List_Lexorder"
    "HOL-Library.Product_Lexorder"
begin

section \<open>MOSEE: valuation range, margin-of-safety gate, verdicts and display helpers\<close>

text \<open>
  The repository holds a read-only web dashboard (TypeScript) and the design
  documents of the analytics engine. The documents carry the engine's Python class
  \<^verbatim>\<open>ValuationRange\<close>, its weight table and its formulas; the dashboard carries the
  verdict type, the SQL that orders the pick list and the display formatters.

  Numbers: a Python float and a JavaScript number are IEEE 754 doubles. A finite
  double is the real number it stands for; each division and multiplication in the
  code of the sources (the methods of \<^verbatim>\<open>ValuationRange\<close>, \<^verbatim>\<open>formatMoS\<close>) returns the
  double nearest to the exact result (ties to the even significand), or an infinity
  when that leaves the range. The formulas that the documents give without code (the
  weight table, the Graham Number, the composite range, the decision matrix) are
  stated over the reals.
\<close>

subsection \<open>IEEE 754 doubles\<close>

text \<open>
  A double is a finite value, an infinity or NaN (the sign of zero is not kept: no
  function below tells the two zeros apart).
\<close>

datatype double = Finite real | Infinity | NegInfinity | NaN

text \<open>
  Rounding to the nearest double. A value of magnitude in \<open>[2^e, 2^(e+1))\<close> has 53
  significant bits, so its doubles are the multiples of \<open>2^(e-52)\<close>; below
  \<open>2^(-1022)\<close> (the subnormal range) the spacing stays \<open>2^(-1074)\<close>. The value is
  scaled by that spacing and rounded to the nearest integer, a tie going to the even
  one.
\<close>

definition binade :: "real \<Rightarrow> int" where
  "binade x = max \<lfloor>log 2 \<bar>x\<bar>\<rfloor> (- 1022)"

definition ulp :: "real \<Rightarrow> real" where
  "ulp x = 2 powi (binade x - 52)"

definition round_half_even :: "real \<Rightarrow> int" where
  "round_half_even y =
     (if frac y < 1 / 2 then \<lfloor>y\<rfloor>
      else if 1 / 2 < frac y then \<lfloor>y\<rfloor> + 1
      else if even \<lfloor>y\<rfloor> then \<lfloor>y\<rfloor> else \<lfloor>y\<rfloor> + 1)"

definition round_real :: "real \<Rightarrow> real" where
  "round_real x = sgn x * (of_int (round_half_even (\<bar>x\<bar> / ulp x)) * ulp x)"

text \<open>
  A rounded magnitude of \<open>2^1024\<close> or more is an infinity (the largest double is
  \<open>2^1024 - 2^971\<close>).
\<close>

definition max_exponent :: int where
  "max_exponent = 1024"

definition overflow_threshold :: real where
  "overflow_threshold = 2 powi max_exponent"

definition round_double :: "real \<Rightarrow> double" where
  "round_double x =
     (let r = round_real x
      in if overflow_threshold \<le> r then Infinity
         else if r \<le> - overflow_threshold then NegInfinity
         else Finite r)"

text \<open>The reals that are finite doubles: rounding leaves them as they are.\<close>

definition is_double :: "real \<Rightarrow> bool" where
  "is_double x \<longleftrightarrow> round_double x = Finite x"

text \<open>The double a decimal literal of the program denotes.\<close>

definition lit :: "real \<Rightarrow> real" where
  "lit d = round_real d"

text \<open>The comparisons \<^verbatim>\<open><=\<close> and \<^verbatim>\<open><\<close> of doubles: false whenever an operand is NaN.\<close>

fun f_le :: "double \<Rightarrow> double \<Rightarrow> bool" where
  "f_le NaN _ \<longleftrightarrow> False"
| "f_le _ NaN \<longleftrightarrow> False"
| "f_le (Finite x) (Finite y) \<longleftrightarrow> x \<le> y"
| "f_le NegInfinity _ \<longleftrightarrow> True"
| "f_le _ Infinity \<longleftrightarrow> True"
| "f_le Infinity _ \<longleftrightarrow> False"
| "f_le (Finite x) NegInfinity \<longleftrightarrow> False"


subsection \<open>The valuation range (docs/valuation-range.md, class ValuationRange)\<close>

text \<open>
  \<^verbatim>\<open>
  @dataclass
  class ValuationRange:
      conservative: float      # Bear case - USE THIS FOR MoS
      base: float              # Most likely
      optimistic: float        # Bull case
      method: str              # Which valuation method
      confidence: ValueConfidence
  \<close>
  The declaration of \<^verbatim>\<open>ValueConfidence\<close> is not part of the sources, so it is a type
  parameter. The field \<^verbatim>\<open>method\<close> is called \<open>method_tag\<close> here, the source's
  name being reserved. A dataclass has the generated constructor only: it stores
  its five arguments, and nothing validates or reorders them. The three values, the
  prices and the thresholds are finite doubles, written as the reals they stand for
  (an infinity or a NaN passed as an argument is outside the model).
\<close>

record 'conf ValuationRange =
  conservative :: real
  base :: real
  optimistic :: real
  method_tag :: string
  confidence :: 'conf

datatype py_error = ZeroDivisionError

text \<open>
  \<^verbatim>\<open>
  def margin_of_safety(self, current_price: float) -> float:
      return current_price / self.conservative
  \<close>
  Python's float division raises ZeroDivisionError on a zero divisor; otherwise it
  returns the quotient rounded to a double.
\<close>

definition margin_of_safety :: "'conf ValuationRange \<Rightarrow> real \<Rightarrow> py_error + double" where
  "margin_of_safety self current_price =
     (if conservative self = 0 then Inl ZeroDivisionError
      else Inr (round_double (current_price / conservative self)))"

text \<open>
  \<^verbatim>\<open>
  def is_buyable(self, current_price: float, required_mos: float = 0.7) -> bool:
      return self.margin_of_safety(current_price) <= required_mos
  def buy_below_price(self, required_mos: float = 0.7) -> float:
      return self.conservative * required_mos
  \<close>
\<close>

definition default_required_mos :: real where
  "default_required_mos = lit 0.7"

definition is_buyable :: "'conf ValuationRange \<Rightarrow> real \<Rightarrow> real \<Rightarrow> py_error + bool" where
  "is_buyable self current_price required_mos =
     (case margin_of_safety self current_price of
        Inl e \<Rightarrow> Inl e
      | Inr m \<Rightarrow> Inr (f_le m (Finite required_mos)))"

definition buy_below_price :: "'conf ValuationRange \<Rightarrow> real \<Rightarrow> double" where
  "buy_below_price self required_mos = round_double (conservative self * required_mos)"

text \<open>The ordering a range is expected to have.\<close>

definition range_ordered :: "'conf ValuationRange \<Rightarrow> bool" where
  "range_ordered r \<longleftrightarrow> conservative r \<le> base r \<and> base r \<le> optimistic r"

subsection \<open>Investment styles (docs/book-intelligence.md, table "Investment Styles")\<close>

text \<open>
  \<^verbatim>\<open>
  | Style         | Graham | Buffett | Lynch | Greenblatt | Fisher |
  | Deep Value    | 35%    | 25%     | 10%   | 20%        | 10%    |
  | Quality Value | 15%    | 40%     | 15%   | 15%        | 15%    |
  | GARP          | 15%    | 20%     | 35%   | 10%        | 20%    |
  | Magic Formula | 10%    | 15%     | 15%   | 45%        | 15%    |
  | Growth        | 10%    | 15%     | 25%   | 10%        | 40%    |
  | Balanced      | 20%    | 20%     | 20%   | 20%        | 20%    |
  \<close>
  The style names are those of \<^verbatim>\<open>InvestmentStyle\<close> in docs/api-reference.md.
\<close>

datatype InvestmentStyle =
  DEEP_VALUE | QUALITY_VALUE | GARP | MAGIC_FORMULA | GROWTH | BALANCED

record LensWeights =
  graham :: real
  buffett :: real
  lynch :: real
  greenblatt :: real
  fisher :: real

definition percent :: "nat \<Rightarrow> real" where
  "percent n = real n / 100"

fun style_weights :: "InvestmentStyle \<Rightarrow> LensWeights" where
  "style_weights DEEP_VALUE =
     \<lparr>graham = percent 35, buffett = percent 25, lynch = percent 10,
      greenblatt = percent 20, fisher = percent 10\<rparr>"
| "style_weights QUALITY_VALUE =
     \<lparr>graham = percent 15, buffett = percent 40, lynch = percent 15,
      greenblatt = percent 15, fisher = percent 15\<rparr>"
| "style_weights GARP =
     \<lparr>graham = percent 15, buffett = percent 20, lynch = percent 35,
      greenblatt = percent 10, fisher = percent 20\<rparr>"
| "style_weights MAGIC_FORMULA =
     \<lparr>graham = percent 10, buffett = percent 15, lynch = percent 15,
      greenblatt = percent 45, fisher = percent 15\<rparr>"
| "style_weights GROWTH =
     \<lparr>graham = percent 10, buffett = percent 15, lynch = percent 25,
      greenblatt = percent 10, fisher = percent 40\<rparr>"
| "style_weights BALANCED =
     \<lparr>graham = percent 20, buffett = percent 20, lynch = percent 20,
      greenblatt = percent 20, fisher = percent 20\<rparr>"

definition weights_total :: "LensWeights \<Rightarrow> real" where
  "weights_total w = graham w + buffett w + lynch w + greenblatt w + fisher w"

text \<open>
  The composite of docs/book-intelligence.md, with the weights as a parameter:
  \<^verbatim>\<open>
  MOSEE_composite = (graham_score * 0.20 + buffett_score * 0.25 + lynch_score * 0.15 +
                     greenblatt_score * 0.20 + fisher_score * 0.20)
  \<close>
\<close>

record LensScores =
  graham_score :: real
  buffett_score :: real
  lynch_score :: real
  greenblatt_score :: real
  fisher_score :: real

definition default_weights :: LensWeights where
  "default_weights =
     \<lparr>graham = 0.20, buffett = 0.25, lynch = 0.15, greenblatt = 0.20, fisher = 0.20\<rparr>"

definition MOSEE_composite :: "LensWeights \<Rightarrow> LensScores \<Rightarrow> real" where
  "MOSEE_composite w s =
     graham_score s * graham w + buffett_score s * buffett w + lynch_score s * lynch w +
     greenblatt_score s * greenblatt w + fisher_score s * fisher w"

subsection \<open>Graham Number\<close>

text \<open>
  Modelled from the spec: \<^verbatim>\<open>calculate_graham_number\<close> (fundamental_analysis/indicators.py)
  is not part of the sources; only its formula (docs/book-intelligence.md) and one call
  (docs/api-reference.md) are. The spec: "Graham Number = sqrt(22.5 * EPS * book
  value/share), undefined (omit, do not error) if EPS <= 0 or BVPS <= 0". The omitted
  value is \<open>None\<close>; the function has no error result.
\<close>

definition calculate_graham_number :: "real \<Rightarrow> real \<Rightarrow> real option" where
  "calculate_graham_number eps book_value_per_share =
     (if eps \<le> 0 \<or> book_value_per_share \<le> 0 then None
      else Some (sqrt (22.5 * eps * book_value_per_share)))"

subsection \<open>Verdicts (web, types/mosee: Verdict; docs/api-reference.md: InvestmentVerdict)\<close>

datatype Verdict =
  STRONG_BUY | BUY | ACCUMULATE | HOLD | WATCHLIST | REDUCE | SELL | AVOID
  | INSUFFICIENT_DATA

text \<open>The strings of the TypeScript union and of the Python enum's values.\<close>

fun verdict_text :: "Verdict \<Rightarrow> string" where
  "verdict_text STRONG_BUY = ''STRONG BUY''"
| "verdict_text BUY = ''BUY''"
| "verdict_text ACCUMULATE = ''ACCUMULATE''"
| "verdict_text HOLD = ''HOLD''"
| "verdict_text WATCHLIST = ''WATCHLIST''"
| "verdict_text REDUCE = ''REDUCE''"
| "verdict_text SELL = ''SELL''"
| "verdict_text AVOID = ''AVOID''"
| "verdict_text INSUFFICIENT_DATA = ''INSUFFICIENT DATA''"

text \<open>
  \<^verbatim>\<open>
  export const VERDICT_PRIORITY: Record<Verdict, number> = {
    'STRONG BUY': 1, 'BUY': 2, 'ACCUMULATE': 3, 'WATCHLIST': 4, 'HOLD': 5,
    'REDUCE': 6, 'SELL': 7, 'AVOID': 8, 'INSUFFICIENT DATA': 9 }
  \<close>
\<close>

fun VERDICT_PRIORITY :: "Verdict \<Rightarrow> nat" where
  "VERDICT_PRIORITY STRONG_BUY = 1"
| "VERDICT_PRIORITY BUY = 2"
| "VERDICT_PRIORITY ACCUMULATE = 3"
| "VERDICT_PRIORITY WATCHLIST = 4"
| "VERDICT_PRIORITY HOLD = 5"
| "VERDICT_PRIORITY REDUCE = 6"
| "VERDICT_PRIORITY SELL = 7"
| "VERDICT_PRIORITY AVOID = 8"
| "VERDICT_PRIORITY INSUFFICIENT_DATA = 9"

subsection \<open>The verdict decision engine\<close>

text \<open>
  Modelled from the spec: the decision matrix, "Deterministic total function over
  (quality tier, MoS tier)", with the "boundaries inclusive on the lower edge of each
  band":
  \<^verbatim>\<open>
  | Quality      | MoS <0.5   | 0.5-0.7    | 0.7-1.0    | 1.0-1.2   | 1.2-1.5   | >1.5 |
  | High >=70    | STRONG_BUY | BUY        | ACCUMULATE | WATCHLIST | WATCHLIST | SELL |
  | Medium 50-69 | BUY        | BUY        | HOLD       | HOLD      | REDUCE    | SELL |
  | Low <50      | ACCUMULATE | ACCUMULATE | AVOID      | AVOID     | REDUCE    | SELL |
  \<close>
  The rows and columns are written twice: as the bands the table's headers state
  (\<open>in_quality_tier\<close>, \<open>in_mos_tier\<close>), and as the classification the engine computes
  (\<open>quality_tier_of\<close>, \<open>mos_tier_of\<close>). Scores are not whole numbers only, so the
  medium band "50-69" is read as \<open>50 \<le> q < 70\<close> (docs/decision-framework.md: "Medium
  Quality (50-70)"), and the last column starts at 1.5.
\<close>

datatype quality_tier = High | Medium | Low

datatype mos_tier =
  MoS_below_0_5 | MoS_0_5_to_0_7 | MoS_0_7_to_1_0 | MoS_1_0_to_1_2 | MoS_1_2_to_1_5
  | MoS_from_1_5

fun in_quality_tier :: "quality_tier \<Rightarrow> real \<Rightarrow> bool" where
  "in_quality_tier High q \<longleftrightarrow> 70 \<le> q"
| "in_quality_tier Medium q \<longleftrightarrow> 50 \<le> q \<and> q < 70"
| "in_quality_tier Low q \<longleftrightarrow> q < 50"

fun in_mos_tier :: "mos_tier \<Rightarrow> real \<Rightarrow> bool" where
  "in_mos_tier MoS_below_0_5 m \<longleftrightarrow> m < 0.5"
| "in_mos_tier MoS_0_5_to_0_7 m \<longleftrightarrow> 0.5 \<le> m \<and> m < 0.7"
| "in_mos_tier MoS_0_7_to_1_0 m \<longleftrightarrow> 0.7 \<le> m \<and> m < 1.0"
| "in_mos_tier MoS_1_0_to_1_2 m \<longleftrightarrow> 1.0 \<le> m \<and> m < 1.2"
| "in_mos_tier MoS_1_2_to_1_5 m \<longleftrightarrow> 1.2 \<le> m \<and> m < 1.5"
| "in_mos_tier MoS_from_1_5 m \<longleftrightarrow> 1.5 \<le> m"

fun decision_matrix :: "quality_tier \<Rightarrow> mos_tier \<Rightarrow> Verdict" where
  "decision_matrix High MoS_below_0_5 = STRONG_BUY"
| "decision_matrix High MoS_0_5_to_0_7 = BUY"
| "decision_matrix High MoS_0_7_to_1_0 = ACCUMULATE"
| "decision_matrix High MoS_1_0_to_1_2 = WATCHLIST"
| "decision_matrix High MoS_1_2_to_1_5 = WATCHLIST"
| "decision_matrix High MoS_from_1_5 = SELL"
| "decision_matrix Medium MoS_below_0_5 = BUY"
| "decision_matrix Medium MoS_0_5_to_0_7 = BUY"
| "decision_matrix Medium MoS_0_7_to_1_0 = HOLD"
| "decision_matrix Medium MoS_1_0_to_1_2 = HOLD"
| "decision_matrix Medium MoS_1_2_to_1_5 = REDUCE"
| "decision_matrix Medium MoS_from_1_5 = SELL"
| "decision_matrix Low MoS_below_0_5 = ACCUMULATE"
| "decision_matrix Low MoS_0_5_to_0_7 = ACCUMULATE"
| "decision_matrix Low MoS_0_7_to_1_0 = AVOID"
| "decision_matrix Low MoS_1_0_to_1_2 = AVOID"
| "decision_matrix Low MoS_1_2_to_1_5 = REDUCE"
| "decision_matrix Low MoS_from_1_5 = SELL"

definition quality_tier_of :: "real \<Rightarrow> quality_tier" where
  "quality_tier_of q = (if 70 \<le> q then High else if 50 \<le> q then Medium else Low)"

definition mos_tier_of :: "real \<Rightarrow> mos_tier" where
  "mos_tier_of m =
     (if m < 0.5 then MoS_below_0_5
      else if m < 0.7 then MoS_0_5_to_0_7
      else if m < 1.0 then MoS_0_7_to_1_0
      else if m < 1.2 then MoS_1_0_to_1_2
      else if m < 1.5 then MoS_1_2_to_1_5
      else MoS_from_1_5)"

definition determine_verdict :: "real \<Rightarrow> real \<Rightarrow> Verdict" where
  "determine_verdict quality m = decision_matrix (quality_tier_of quality) (mos_tier_of m)"



text \<open>The cells of the matrix, and the verdicts of the cells whose bands hold a pair.\<close>

definition matrix_cells :: "(quality_tier \<times> mos_tier) list" where
  "matrix_cells =
     List.product [High, Medium, Low]
       [MoS_below_0_5, MoS_0_5_to_0_7, MoS_0_7_to_1_0, MoS_1_0_to_1_2, MoS_1_2_to_1_5,
        MoS_from_1_5]"

definition verdicts_at :: "real \<Rightarrow> real \<Rightarrow> Verdict list" where
  "verdicts_at q m =
     map (\<lambda>(t, b). decision_matrix t b)
       (filter (\<lambda>(t, b). in_quality_tier t q \<and> in_mos_tier b m) matrix_cells)"

definition all_verdicts :: "Verdict list" where
  "all_verdicts =
     [STRONG_BUY, BUY, ACCUMULATE, HOLD, WATCHLIST, REDUCE, SELL, AVOID, INSUFFICIENT_DATA]"

subsection \<open>Magic Formula ranking\<close>

text \<open>
  Modelled from the spec: \<^verbatim>\<open>rank_by_magic_formula\<close> (fundamental_analysis/magic_formula.py)
  is not part of the sources. docs/book-intelligence.md: "1. Rank all stocks by Earnings
  Yield (highest = rank 1) 2. Rank all stocks by Return on Capital (highest = rank 1)
  3. Combined Rank = EY Rank + ROC Rank"; the spec adds "ties broken by ticker lexical
  order". Each ranking is a sort (value descending, then ticker ascending); a ticker's
  rank is its position, from 1, in the sorted list.
\<close>

record MagicFormulaResult =
  mf_ticker :: string
  earnings_yield :: real
  return_on_capital :: real

definition rank_by_earnings_yield :: "MagicFormulaResult list \<Rightarrow> MagicFormulaResult list" where
  "rank_by_earnings_yield rs = sort_key (\<lambda>r. (- earnings_yield r, mf_ticker r)) rs"

definition rank_by_return_on_capital :: "MagicFormulaResult list \<Rightarrow> MagicFormulaResult list" where
  "rank_by_return_on_capital rs = sort_key (\<lambda>r. (- return_on_capital r, mf_ticker r)) rs"

fun rank_in :: "string \<Rightarrow> MagicFormulaResult list \<Rightarrow> nat option" where
  "rank_in t [] = None"
| "rank_in t (r # rs) = (if mf_ticker r = t then Some 1 else map_option Suc (rank_in t rs))"

definition combined_rank :: "MagicFormulaResult list \<Rightarrow> string \<Rightarrow> nat option" where
  "combined_rank rs t =
     (case (rank_in t (rank_by_earnings_yield rs), rank_in t (rank_by_return_on_capital rs)) of
        (Some ey_rank, Some roc_rank) \<Rightarrow> Some (ey_rank + roc_rank)
      | _ \<Rightarrow> None)"

subsection \<open>The pick list (web, lib/db: getTopPicks and getAllAnalyses)\<close>

text \<open>
  A row of \<^verbatim>\<open>mosee_stock_analyses\<close>, with the columns the two queries read (the
  interface \<^verbatim>\<open>StockAnalysis\<close> has more, which the queries pass through). A nullable
  column is an option; the date column is a day number.
\<close>

record StockAnalysis =
  ticker :: string
  analysis_date :: nat
  verdict :: Verdict
  quality_score :: "real option"
  pad_mosee :: "real option"

text \<open>
  \<^verbatim>\<open>
  CASE verdict WHEN 'STRONG BUY' THEN 1 WHEN 'BUY' THEN 2 WHEN 'ACCUMULATE' THEN 3
    WHEN 'WATCHLIST' THEN 4 WHEN 'HOLD' THEN 5 WHEN 'REDUCE' THEN 6 WHEN 'SELL' THEN 7
    WHEN 'AVOID' THEN 8 ELSE 9 END
  \<close>
\<close>

definition verdict_case :: "string \<Rightarrow> nat" where
  "verdict_case v =
     (if v = ''STRONG BUY'' then 1
      else if v = ''BUY'' then 2
      else if v = ''ACCUMULATE'' then 3
      else if v = ''WATCHLIST'' then 4
      else if v = ''HOLD'' then 5
      else if v = ''REDUCE'' then 6
      else if v = ''SELL'' then 7
      else if v = ''AVOID'' then 8
      else 9)"

definition verdict_rank :: "StockAnalysis \<Rightarrow> nat" where
  "verdict_rank r = verdict_case (verdict_text (verdict r))"

text \<open>\<^verbatim>\<open>x DESC NULLS LAST\<close>: does the first value sort strictly before the second?\<close>

fun desc_nulls_last :: "real option \<Rightarrow> real option \<Rightarrow> bool" where
  "desc_nulls_last (Some x) (Some y) \<longleftrightarrow> y < x"
| "desc_nulls_last (Some x) None \<longleftrightarrow> True"
| "desc_nulls_last None _ \<longleftrightarrow> False"

text \<open>
  getTopPicks: \<^verbatim>\<open>ORDER BY CASE verdict ... END, quality_score DESC NULLS LAST,
  pad_mosee DESC NULLS LAST\<close>. \<open>top_picks_before a b\<close>: the sort key puts \<open>a\<close>
  strictly before \<open>b\<close>; \<open>top_picks_le a b\<close>: it does not put \<open>b\<close> strictly before \<open>a\<close>.
\<close>

definition top_picks_before :: "StockAnalysis \<Rightarrow> StockAnalysis \<Rightarrow> bool" where
  "top_picks_before a b \<longleftrightarrow>
     verdict_rank a < verdict_rank b
     \<or> (verdict_rank a = verdict_rank b
        \<and> (desc_nulls_last (quality_score a) (quality_score b)
           \<or> (quality_score a = quality_score b
              \<and> desc_nulls_last (pad_mosee a) (pad_mosee b))))"

definition top_picks_le :: "StockAnalysis \<Rightarrow> StockAnalysis \<Rightarrow> bool" where
  "top_picks_le a b \<longleftrightarrow> \<not> top_picks_before b a"

text \<open>getAllAnalyses: \<^verbatim>\<open>ORDER BY CASE verdict ... END, pad_mosee DESC NULLS LAST\<close>.\<close>

definition all_analyses_before :: "StockAnalysis \<Rightarrow> StockAnalysis \<Rightarrow> bool" where
  "all_analyses_before a b \<longleftrightarrow>
     verdict_rank a < verdict_rank b
     \<or> (verdict_rank a = verdict_rank b \<and> desc_nulls_last (pad_mosee a) (pad_mosee b))"

definition all_analyses_le :: "StockAnalysis \<Rightarrow> StockAnalysis \<Rightarrow> bool" where
  "all_analyses_le a b \<longleftrightarrow> \<not> all_analyses_before b a"

text \<open>
  \<^verbatim>\<open>ORDER BY\<close> as an insertion sort by the key's order. SQL leaves the order of
  rows with equal keys open; this sort keeps them in the order of the table.
\<close>

fun insert_row :: "('a \<Rightarrow> 'a \<Rightarrow> bool) \<Rightarrow> 'a \<Rightarrow> 'a list \<Rightarrow> 'a list" where
  "insert_row le x [] = [x]"
| "insert_row le x (y # ys) = (if le x y then x # y # ys else y # insert_row le x ys)"

definition order_by :: "('a \<Rightarrow> 'a \<Rightarrow> bool) \<Rightarrow> 'a list \<Rightarrow> 'a list" where
  "order_by le rows = foldr (insert_row le) rows []"

text \<open>
  \<^verbatim>\<open>WHERE analysis_date = (SELECT MAX(analysis_date) FROM mosee_stock_analyses)\<close>,
  and \<^verbatim>\<open>LIMIT ${limit}\<close> in getTopPicks (\<^verbatim>\<open>limit: number = 10\<close>). The table is the
  list of its rows.
\<close>

definition max_analysis_date :: "StockAnalysis list \<Rightarrow> nat option" where
  "max_analysis_date table =
     (case table of
        [] \<Rightarrow> None
      | r # rs \<Rightarrow> Some (fold (\<lambda>s m. max (analysis_date s) m) rs (analysis_date r)))"

definition latest_rows :: "StockAnalysis list \<Rightarrow> StockAnalysis list" where
  "latest_rows table = filter (\<lambda>r. Some (analysis_date r) = max_analysis_date table) table"

definition getTopPicks :: "nat \<Rightarrow> StockAnalysis list \<Rightarrow> StockAnalysis list" where
  "getTopPicks limit table = take limit (order_by top_picks_le (latest_rows table))"

definition getAllAnalyses :: "StockAnalysis list \<Rightarrow> StockAnalysis list" where
  "getAllAnalyses table = order_by all_analyses_le (latest_rows table)"

subsection \<open>Display of the margin-of-safety ratio (web, types/mosee: formatMoS)\<close>

text \<open>A JavaScript number is a double.\<close>

type_synonym number = double

fun isFinite :: "number \<Rightarrow> bool" where
  "isFinite (Finite x) \<longleftrightarrow> True"
| "isFinite _ \<longleftrightarrow> False"

fun js_gt :: "number \<Rightarrow> number \<Rightarrow> bool" where
  "js_gt NaN _ \<longleftrightarrow> False"
| "js_gt _ NaN \<longleftrightarrow> False"
| "js_gt (Finite x) (Finite y) \<longleftrightarrow> y < x"
| "js_gt Infinity Infinity \<longleftrightarrow> False"
| "js_gt Infinity _ \<longleftrightarrow> True"
| "js_gt NegInfinity _ \<longleftrightarrow> False"
| "js_gt (Finite x) NegInfinity \<longleftrightarrow> True"
| "js_gt (Finite x) Infinity \<longleftrightarrow> False"

text \<open>
  The product of two numbers: of two finite ones the exact product rounded to a double;
  with an infinity, the infinity of the product's sign, and NaN for zero times
  infinity.
\<close>

fun sign_of :: "number \<Rightarrow> real" where
  "sign_of (Finite x) = sgn x"
| "sign_of Infinity = 1"
| "sign_of NegInfinity = - 1"
| "sign_of NaN = 0"

fun js_mul :: "number \<Rightarrow> number \<Rightarrow> number" where
  "js_mul NaN _ = NaN"
| "js_mul _ NaN = NaN"
| "js_mul (Finite x) (Finite y) = round_double (x * y)"
| "js_mul a b =
     (if sign_of a * sign_of b = 0 then NaN
      else if 0 < sign_of a * sign_of b then Infinity
      else NegInfinity)"

text \<open>The decimal digits of a natural number.\<close>

fun decimal :: "nat \<Rightarrow> string" where
  "decimal n =
     (if n < 10 then [''0123456789'' ! n]
      else decimal (n div 10) @ [''0123456789'' ! (n mod 10)])"

text \<open>
  \<^verbatim>\<open>Number.prototype.toFixed(0)\<close> (ECMAScript): a non-finite number gives its name;
  otherwise the sign and, below \<open>10^21\<close>, the digits of the nearest integer (the larger
  one of two nearest); from \<open>10^21\<close> on the number's own string, whose exponent
  notation is the parameter \<open>ToString\<close>.
\<close>

fun toFixed0 :: "(real \<Rightarrow> string) \<Rightarrow> number \<Rightarrow> string" where
  "toFixed0 ToString NaN = ''NaN''"
| "toFixed0 ToString Infinity = ''Infinity''"
| "toFixed0 ToString NegInfinity = ''-Infinity''"
| "toFixed0 ToString (Finite x) =
     (if x < 0 then ''-'' else '''') @
     (if 10 ^ 21 \<le> \<bar>x\<bar> then ToString \<bar>x\<bar> else decimal (nat \<lfloor>\<bar>x\<bar> + 1 / 2\<rfloor>))"

text \<open>
  \<^verbatim>\<open>
  export function formatMoS(value: number | null | undefined): string {
    if (value == null || !isFinite(value)) return 'N/A'
    if (value > 10) return '>10x'
    return `${(value * 100).toFixed(0)}%`
  }
  \<close>
  \<open>None\<close> is null or undefined.
\<close>

definition formatMoS :: "(real \<Rightarrow> string) \<Rightarrow> number option \<Rightarrow> string" where
  "formatMoS ToString v =
     (case v of
        None \<Rightarrow> ''N/A''
      | Some x \<Rightarrow>
          if \<not> isFinite x then ''N/A''
          else if js_gt x (Finite 10) then ''>10x''
          else toFixed0 ToString (js_mul x (Finite 100)) @ ''%'')"

subsection \<open>The composite range\<close>

text \<open>
  Modelled from the spec: \<^verbatim>\<open>build_composite_valuation\<close> (valuation_range.py) is not part
  of the sources. The spec, as docs/valuation-range.md ("Composite Range Calculation"):
  "conservative = min of available methods' conservative values; base =
  confidence-weighted average of base values; optimistic = unweighted average (never
  the max) of optimistic values". The weight of a confidence level is not given and is
  a parameter; without a method there is no composite. The field names are those of
  the quick-start guide.
\<close>

record CompositeValuationRange =
  composite_conservative :: real
  composite_base :: real
  composite_optimistic :: real

definition build_composite_valuation ::
  "('conf \<Rightarrow> real) \<Rightarrow> 'conf ValuationRange list \<Rightarrow> CompositeValuationRange option" where
  "build_composite_valuation weight ranges =
     (if ranges = [] then None
      else Some
        \<lparr>composite_conservative = Min (set (map conservative ranges)),
         composite_base =
           sum_list (map (\<lambda>r. weight (confidence r) * base r) ranges)
           / sum_list (map (\<lambda>r. weight (confidence r)) ranges),
         composite_optimistic = sum_list (map optimistic ranges) / real (length ranges)\<rparr>)"

definition composite_ordered :: "CompositeValuationRange \<Rightarrow> bool" where
  "composite_ordered c \<longleftrightarrow>
     composite_conservative c \<le> composite_base c
     \<and> composite_base c \<le> composite_optimistic c"

subsection \<open>Example data\<close>

text \<open>The range of the worked example in docs/valuation-range.md (120 / 150 / 180).\<close>

definition example_range :: "unit ValuationRange" where
  "example_range =
     \<lparr>conservative = 120, base = 150, optimistic = 180, method_tag = ''dcf'',
      confidence = ()\<rparr>"

definition richer_range :: "unit ValuationRange" where
  "richer_range =
     \<lparr>conservative = 150, base = 180, optimistic = 210, method_tag = ''dcf'',
      confidence = ()\<rparr>"

text \<open>Rows of one analysis run (day 2) and an older row (day 1).\<close>

definition pick_a :: StockAnalysis where
  "pick_a = \<lparr>ticker = ''AAA'', analysis_date = 2, verdict = BUY,
             quality_score = Some 80, pad_mosee = Some 2\<rparr>"

definition pick_b :: StockAnalysis where
  "pick_b = \<lparr>ticker = ''BBB'', analysis_date = 2, verdict = BUY,
             quality_score = Some 80, pad_mosee = Some 2\<rparr>"

definition pick_c :: StockAnalysis where
  "pick_c = \<lparr>ticker = ''CCC'', analysis_date = 2, verdict = STRONG_BUY,
             quality_score = None, pad_mosee = Some 1\<rparr>"

definition pick_d :: StockAnalysis where
  "pick_d = \<lparr>ticker = ''DDD'', analysis_date = 2, verdict = BUY,
             quality_score = Some 60, pad_mosee = Some 5\<rparr>"

definition pick_old :: StockAnalysis where
  "pick_old = \<lparr>ticker = ''AAA'', analysis_date = 1, verdict = STRONG_BUY,
               quality_score = Some 90, pad_mosee = Some 9\<rparr>"

text \<open>
  A value for the parameter of \<open>toFixed0\<close> in the examples of formatMoS, none of
  which reaches the exponent notation.
\<close>

definition no_exponent :: "real \<Rightarrow> string" where
  "no_exponent x = ''''"

text \<open>A universe for the Magic Formula ranking, with a tie in earnings yield.\<close>

definition universe :: "MagicFormulaResult list" where
  "universe =
     [\<lparr>mf_ticker = ''AAA'', earnings_yield = 0.10, return_on_capital = 0.30\<rparr>,
      \<lparr>mf_ticker = ''BBB'', earnings_yield = 0.10, return_on_capital = 0.50\<rparr>,
      \<lparr>mf_ticker = ''CCC'', earnings_yield = 0.20, return_on_capital = 0.40\<rparr>]"

section \<open>Properties\<close>

declare decimal.simps [simp del]

subsection \<open>Rounding to a double\<close>

text \<open>
  The exponent of a value, the rounding of the scaled value to an integer, and from
  them: rounding keeps the sign and the order, and a value of magnitude in
  \<open>[2^e, 2^(e+1))\<close> is rounded on the grid of spacing \<open>2^(e-52)\<close>.
\<close>

lemma binade_ge: "- 1022 \<le> binade x"
  by (simp add: binade_def)

lemma pow2_floor_log:
  assumes "0 < x"
  shows "2 powi \<lfloor>log 2 x\<rfloor> \<le> x" "x < 2 powi (\<lfloor>log 2 x\<rfloor> + 1)"
proof -
  have "2 powr (of_int \<lfloor>log 2 x\<rfloor>) \<le> 2 powr (log 2 x)"
    by (intro powr_mono) simp_all
  also have "\<dots> = x" using assms by simp
  finally show "2 powi \<lfloor>log 2 x\<rfloor> \<le> x" by (simp add: powr_real_of_int')
  have "x = 2 powr (log 2 x)" using assms by simp
  also have "\<dots> < 2 powr (of_int (\<lfloor>log 2 x\<rfloor> + 1))"
    by (intro powr_less_mono) simp_all
  finally show "x < 2 powi (\<lfloor>log 2 x\<rfloor> + 1)"
    using powr_real_of_int' [of 2 "\<lfloor>log 2 x\<rfloor> + 1"] by simp
qed

lemma floor_log_eqI:
  assumes "2 powi e \<le> x" "x < 2 powi (e + 1)"
  shows "\<lfloor>log 2 x\<rfloor> = e"
proof -
  have "0 < (2::real) powi e" by simp
  with assms(1) have pos: "0 < x" by linarith
  have "of_int e \<le> log 2 x"
    using assms(1) pos by (simp add: le_log_iff powr_real_of_int')
  moreover have "log 2 x < of_int (e + 1)"
    using assms(2) pos powr_real_of_int' [of 2 "e + 1"] by (simp add: log_less_iff)
  ultimately show ?thesis by linarith
qed

lemma binade_upper: "x \<noteq> 0 \<Longrightarrow> \<bar>x\<bar> < 2 powi (binade x + 1)"
proof -
  assume "x \<noteq> 0"
  then have pos: "0 < \<bar>x\<bar>" by simp
  have "\<bar>x\<bar> < 2 powi (\<lfloor>log 2 \<bar>x\<bar>\<rfloor> + 1)" using pow2_floor_log(2) [OF pos] .
  also have "\<dots> \<le> 2 powi (binade x + 1)"
    by (intro power_int_increasing) (simp_all add: binade_def)
  finally show ?thesis .
qed

lemma binade_lower: "x \<noteq> 0 \<Longrightarrow> - 1022 < binade x \<Longrightarrow> 2 powi (binade x) \<le> \<bar>x\<bar>"
proof -
  assume "x \<noteq> 0" and b: "- 1022 < binade x"
  then have pos: "0 < \<bar>x\<bar>" by simp
  from b have "binade x = \<lfloor>log 2 \<bar>x\<bar>\<rfloor>" by (simp add: binade_def max_def split: if_splits)
  with pow2_floor_log(1) [OF pos] show ?thesis by simp
qed

lemma binade_eqI:
  assumes "2 powi e \<le> \<bar>x\<bar>" "\<bar>x\<bar> < 2 powi (e + 1)" "- 1022 \<le> e"
  shows "binade x = e"
  using floor_log_eqI [OF assms(1,2)] assms(3) by (simp add: binade_def)

lemma binade_subnormal:
  assumes "x \<noteq> 0" "\<bar>x\<bar> < 2 powi (- 1022)"
  shows "binade x = - 1022"
proof (rule ccontr)
  assume "binade x \<noteq> - 1022"
  with binade_ge [of x] have b: "- 1022 < binade x" by linarith
  have "(2::real) powi (- 1022) \<le> 2 powi (binade x)"
    using b by (intro power_int_increasing) simp_all
  also have "\<dots> \<le> \<bar>x\<bar>" using assms(1) b by (rule binade_lower)
  finally show False using assms(2) by simp
qed

lemma binade_mono:
  assumes "0 < x" "x \<le> y"
  shows "binade x \<le> binade y"
proof -
  have "log 2 \<bar>x\<bar> \<le> log 2 \<bar>y\<bar>" using assms by simp
  then have "\<lfloor>log 2 \<bar>x\<bar>\<rfloor> \<le> \<lfloor>log 2 \<bar>y\<bar>\<rfloor>" by (rule floor_mono)
  then show ?thesis by (simp add: binade_def)
qed

lemma binade_minus [simp]: "binade (- x) = binade x"
  by (simp add: binade_def)

lemma ulp_pos [simp]: "0 < ulp x"
  by (simp add: ulp_def)

lemma ulp_minus [simp]: "ulp (- x) = ulp x"
  by (simp add: ulp_def)


lemma round_half_even_bounds:
  "of_int (round_half_even y) \<le> y + 1 / 2" "y - 1 / 2 \<le> of_int (round_half_even y)"
  unfolding round_half_even_def frac_def by (auto split: if_splits) linarith+

lemma round_half_even_of_int [simp]: "round_half_even (of_int n) = n"
  by (simp add: round_half_even_def)

lemma round_half_even_range: "\<lfloor>y\<rfloor> \<le> round_half_even y" "round_half_even y \<le> \<lfloor>y\<rfloor> + 1"
  by (simp_all add: round_half_even_def)

lemma round_half_even_mono:
  assumes "x \<le> y"
  shows "round_half_even x \<le> round_half_even y"
proof (cases "\<lfloor>x\<rfloor> = \<lfloor>y\<rfloor>")
  case True
  with assms have "frac x \<le> frac y" by (simp add: frac_def)
  with True show ?thesis by (auto simp add: round_half_even_def)
next
  case False
  with assms have "\<lfloor>x\<rfloor> < \<lfloor>y\<rfloor>" using floor_mono [OF assms] by linarith
  then have "round_half_even x \<le> \<lfloor>y\<rfloor>" using round_half_even_range(2) [of x] by linarith
  then show ?thesis using round_half_even_range(1) [of y] by linarith
qed

lemma round_half_even_nonneg: "0 \<le> y \<Longrightarrow> 0 \<le> round_half_even y"
  using round_half_even_mono [of 0 y] round_half_even_of_int [of 0] by simp

lemma round_real_0 [simp]: "round_real 0 = 0"
  by (simp add: round_real_def)

lemma round_real_minus: "round_real (- x) = - round_real x"
  by (simp add: round_real_def sgn_minus)

lemma round_real_pos_eq:
  "0 < x \<Longrightarrow> round_real x = of_int (round_half_even (x / ulp x)) * ulp x"
  by (simp add: round_real_def)

lemma ulp_nonneg [simp]: "0 \<le> ulp x"
  by (simp add: ulp_def)

lemma round_real_nonneg:
  assumes "0 \<le> x"
  shows "0 \<le> round_real x"
proof (cases "x = 0")
  case True
  then show ?thesis by simp
next
  case False
  with assms have pos: "0 < x" by simp
  then have "0 \<le> x / ulp x" by simp
  then have "0 \<le> round_half_even (x / ulp x)" by (rule round_half_even_nonneg)
  then have "0 \<le> (of_int (round_half_even (x / ulp x)) :: real) * ulp x"
    by (intro mult_nonneg_nonneg) simp_all
  with pos show ?thesis by (simp add: round_real_pos_eq)
qed

lemma pow2_add: "(2::real) powi m * 2 powi n = 2 powi (m + n)"
  by (simp add: power_int_add)

text \<open>A positive value and its rounding lie in the same closed binade.\<close>

lemma round_real_upper:
  assumes "0 < x"
  shows "round_real x \<le> 2 powi (binade x + 1)"
proof -
  have "x \<le> 2 powi (binade x + 1)" using binade_upper [of x] assms by simp
  then have "x / ulp x \<le> 2 powi (binade x + 1) / ulp x"
    by (intro divide_right_mono) simp_all
  also have "\<dots> = 2 powi 53"
    by (simp add: ulp_def power_int_diff [symmetric])
  also have "\<dots> = of_int (2 ^ 53)" by simp
  finally have "round_half_even (x / ulp x) \<le> round_half_even (of_int (2 ^ 53))"
    by (rule round_half_even_mono)
  then have "round_half_even (x / ulp x) \<le> 2 ^ 53" by (simp only: round_half_even_of_int)
  then have "(of_int (round_half_even (x / ulp x)) :: real) \<le> of_int (2 ^ 53)"
    by (simp only: of_int_le_iff)
  then have "of_int (round_half_even (x / ulp x)) * ulp x \<le> of_int (2 ^ 53) * ulp x"
    by (intro mult_right_mono) simp_all
  also have "of_int (2 ^ 53) * ulp x = 2 powi 53 * 2 powi (binade x - 52)"
    by (simp add: ulp_def)
  also have "\<dots> = 2 powi (53 + (binade x - 52))" by (rule pow2_add)
  also have "53 + (binade x - 52) = binade x + 1" by simp
  finally show ?thesis using assms by (simp add: round_real_pos_eq)
qed

lemma round_real_lower:
  assumes "0 < x" "- 1022 < binade x"
  shows "2 powi (binade x) \<le> round_real x"
proof -
  have "2 powi (binade x) \<le> x" using binade_lower [of x] assms by simp
  then have "2 powi (binade x) / ulp x \<le> x / ulp x"
    by (intro divide_right_mono) simp_all
  moreover have "2 powi (binade x) / ulp x = 2 powi 52"
    by (simp add: ulp_def power_int_diff [symmetric])
  moreover have "(2::real) powi 52 = of_int (2 ^ 52)" by simp
  ultimately have "round_half_even (of_int (2 ^ 52)) \<le> round_half_even (x / ulp x)"
    by (intro round_half_even_mono) simp
  then have "2 ^ 52 \<le> round_half_even (x / ulp x)" by (simp only: round_half_even_of_int)
  then have le: "(of_int (2 ^ 52) :: real) \<le> of_int (round_half_even (x / ulp x))"
    by (simp only: of_int_le_iff)
  have "52 + (binade x - 52) = binade x" by simp
  then have "(2::real) powi (binade x) = 2 powi (52 + (binade x - 52))" by (simp only:)
  also have "\<dots> = 2 powi 52 * 2 powi (binade x - 52)" by (rule pow2_add [symmetric])
  also have "\<dots> = of_int (2 ^ 52) * ulp x" by (simp add: ulp_def)
  also have "\<dots> \<le> of_int (round_half_even (x / ulp x)) * ulp x"
    using le by (intro mult_right_mono) simp_all
  also have "\<dots> = round_real x" using assms(1) by (simp add: round_real_pos_eq)
  finally show ?thesis .
qed

lemma round_real_mono_pos:
  assumes "0 < x" "x \<le> y"
  shows "round_real x \<le> round_real y"
proof (cases "binade x = binade y")
  case True
  then have u: "ulp x = ulp y" by (simp add: ulp_def)
  have "x / ulp y \<le> y / ulp y" using assms(2) by (intro divide_right_mono) simp_all
  then have "round_half_even (x / ulp y) \<le> round_half_even (y / ulp y)"
    by (rule round_half_even_mono)
  then have "(of_int (round_half_even (x / ulp y)) :: real) * ulp y
      \<le> of_int (round_half_even (y / ulp y)) * ulp y"
    by (intro mult_right_mono) simp_all
  with u assms show ?thesis by (simp add: round_real_pos_eq)
next
  case False
  with binade_mono [OF assms] have lt: "binade x < binade y" by linarith
  with binade_ge [of x] have b: "- 1022 < binade y" by linarith
  from assms have y: "0 < y" by linarith
  have "round_real x \<le> 2 powi (binade x + 1)" using assms(1) by (rule round_real_upper)
  also have "\<dots> \<le> 2 powi (binade y)"
    using lt by (intro power_int_increasing) simp_all
  also have "\<dots> \<le> round_real y" using y b by (rule round_real_lower)
  finally show ?thesis .
qed

lemma round_real_mono:
  assumes "x \<le> y"
  shows "round_real x \<le> round_real y"
proof -
  consider "0 < x" | "x \<le> 0" "0 \<le> y" | "y < 0" by linarith
  then show ?thesis
  proof cases
    case 1
    then show ?thesis using assms by (rule round_real_mono_pos)
  next
    case 2
    have "round_real x \<le> 0"
      using round_real_nonneg [of "- x"] 2(1) by (simp add: round_real_minus)
    also have "0 \<le> round_real y" using 2(2) by (rule round_real_nonneg)
    finally show ?thesis .
  next
    case 3
    with assms have "0 < - y" "- y \<le> - x" by simp_all
    then have "round_real (- y) \<le> round_real (- x)" by (rule round_real_mono_pos)
    then show ?thesis by (simp add: round_real_minus)
  qed
qed


lemma round_real_eval:
  assumes "2 powi e \<le> \<bar>x\<bar>" "\<bar>x\<bar> < 2 powi (e + 1)" "- 1022 \<le> e"
  shows "round_real x =
    sgn x * (of_int (round_half_even (\<bar>x\<bar> / 2 powi (e - 52))) * 2 powi (e - 52))"
  using binade_eqI [OF assms] by (simp add: round_real_def ulp_def)

text \<open>
  Ties go to the even significand: \<open>2^53 + 1\<close> lies halfway between the doubles
  \<open>2^53\<close> and \<open>2^53 + 2\<close>, and \<open>2^53 + 3\<close> halfway between \<open>2^53 + 2\<close> and
  \<open>2^53 + 4\<close>.
\<close>

lemma tie_even: "round_real (2 ^ 53 + 1) = 2 ^ 53" "round_real (2 ^ 53 + 3) = 2 ^ 53 + 4"
  by (subst round_real_eval [of 53], simp_all add: round_half_even_def frac_def)+

subsection \<open>The range of a double\<close>

lemma overflow_threshold_pos: "0 < overflow_threshold"
  by (simp add: overflow_threshold_def)

lemma max_exponent_ge: "- 1022 \<le> max_exponent - 1"
  by (simp add: max_exponent_def)

lemma round_double_cases:
  "round_double x =
     (if overflow_threshold \<le> round_real x then Infinity
      else if round_real x \<le> - overflow_threshold then NegInfinity
      else Finite (round_real x))"
  by (simp add: round_double_def Let_def)

lemma round_double_finite:
  assumes "\<bar>round_real x\<bar> < overflow_threshold"
  shows "round_double x = Finite (round_real x)"
proof -
  from assms have "\<not> overflow_threshold \<le> round_real x"
    and "\<not> round_real x \<le> - overflow_threshold" by linarith+
  then show ?thesis by (simp add: round_double_cases)
qed

lemma round_double_mono:
  assumes "x \<le> y"
  shows "f_le (round_double x) (round_double y)"
proof -
  have "round_real x \<le> round_real y" using assms by (rule round_real_mono)
  with overflow_threshold_pos show ?thesis by (simp add: round_double_cases)
qed

lemma round_real_abs: "\<bar>round_real x\<bar> = round_real \<bar>x\<bar>"
proof (cases "0 \<le> x")
  case True
  then show ?thesis using round_real_nonneg [of x] by simp
next
  case False
  then have "0 \<le> - x" by simp
  then have "0 \<le> round_real (- x)" by (rule round_real_nonneg)
  with False show ?thesis by (simp add: round_real_minus)
qed

lemma round_double_small:
  assumes "\<bar>x\<bar> \<le> 2 ^ 64"
  shows "round_double x = Finite (round_real x)"
proof (rule round_double_finite)
  have "round_real \<bar>x\<bar> \<le> round_real (2 ^ 64)" using assms by (rule round_real_mono)
  also have "round_real (2 ^ 64) = 2 ^ 64"
    by (subst round_real_eval [of 64]) (simp_all add: round_half_even_def frac_def)
  also have "(2::real) ^ 64 = 2 powi 64" by simp
  also have "(2::real) powi 64 < 2 powi max_exponent"
    unfolding max_exponent_def by (rule power_int_strict_increasing) simp_all
  finally show "\<bar>round_real x\<bar> < overflow_threshold"
    by (simp only: round_real_abs overflow_threshold_def)
qed

lemma binade_overflow:
  assumes "overflow_threshold \<le> x"
  shows "max_exponent \<le> binade x"
proof -
  have e: "- 1022 \<le> max_exponent" by (simp add: max_exponent_def)
  have "(2::real) powi max_exponent < 2 powi (max_exponent + 1)"
    by (rule power_int_strict_increasing) simp_all
  then have "binade overflow_threshold = max_exponent"
    unfolding overflow_threshold_def
    by (intro binade_eqI) (simp_all add: e)
  moreover have "binade overflow_threshold \<le> binade x"
    using overflow_threshold_pos assms by (rule binade_mono)
  ultimately show ?thesis by simp
qed

lemma round_real_overflow:
  assumes "overflow_threshold \<le> x"
  shows "overflow_threshold \<le> round_real x"
proof -
  have b: "max_exponent \<le> binade x" using assms by (rule binade_overflow)
  have pos: "0 < x" using overflow_threshold_pos assms by linarith
  have "- 1022 < max_exponent" by (simp add: max_exponent_def)
  with b have "- 1022 < binade x" by linarith
  with pos have "2 powi (binade x) \<le> round_real x" by (rule round_real_lower)
  moreover have "(2::real) powi max_exponent \<le> 2 powi (binade x)"
    using b by (intro power_int_increasing) simp_all
  ultimately show ?thesis unfolding overflow_threshold_def by linarith
qed

lemma round_double_overflow_neg:
  assumes "x \<le> - overflow_threshold"
  shows "round_double x = NegInfinity"
proof -
  from assms have "overflow_threshold \<le> - x" by simp
  then have "overflow_threshold \<le> round_real (- x)" by (rule round_real_overflow)
  then have "round_real x \<le> - overflow_threshold" by (simp add: round_real_minus)
  with overflow_threshold_pos show ?thesis by (simp add: round_double_cases)
qed

lemma round_double_overflow_pos:
  assumes "overflow_threshold \<le> x"
  shows "round_double x = Infinity"
  using round_real_overflow [OF assms] by (simp add: round_double_cases)

lemma is_doubleD:
  assumes "is_double r"
  shows "round_real r = r" "\<bar>r\<bar> < overflow_threshold"
  using assms overflow_threshold_pos
  by (auto simp add: is_double_def round_double_cases split: if_splits)

subsection \<open>Margin-of-safety gate\<close>

lemma margin_of_safety_zero:
  "conservative self = 0 \<Longrightarrow> margin_of_safety self p = Inl ZeroDivisionError"
  by (simp add: margin_of_safety_def)

lemma margin_of_safety_nonzero:
  "conservative self \<noteq> 0 \<Longrightarrow>
     margin_of_safety self p = Inr (round_double (p / conservative self))"
  by (simp add: margin_of_safety_def)

text \<open>The literal 0.7 is the double \<open>6305039478318694 / 2^53\<close>, a little below 7/10.\<close>

lemma default_required_mos_value: "default_required_mos = 6305039478318694 / 2 ^ 53"
  unfolding default_required_mos_def lit_def
  by (subst round_real_eval [of "- 1"]) (simp_all add: round_half_even_def frac_def)

lemma default_required_mos_is_double: "is_double default_required_mos"
proof -
  have "round_real (6305039478318694 / 2 ^ 53) = 6305039478318694 / 2 ^ 53"
    by (subst round_real_eval [of "- 1"]) (simp_all add: round_half_even_def frac_def)
  moreover have "round_double (6305039478318694 / 2 ^ 53)
      = Finite (round_real (6305039478318694 / 2 ^ 53))"
    by (rule round_double_small) simp
  ultimately show ?thesis
    unfolding is_double_def default_required_mos_value by (simp only:)
qed

lemma product_120: "round_double (120 * default_required_mos) = Finite 84"
proof -
  have "round_real (120 * (6305039478318694 / 2 ^ 53)) = 84"
    by (subst round_real_eval [of 6]) (simp_all add: round_half_even_def frac_def)
  moreover have "round_double (120 * (6305039478318694 / 2 ^ 53))
      = Finite (round_real (120 * (6305039478318694 / 2 ^ 53)))"
    by (rule round_double_small) simp
  ultimately show ?thesis unfolding default_required_mos_value by (simp only:)
qed

lemma quotient_84: "round_double (84 / 120) = Finite default_required_mos"
proof -
  have "round_real (84 / 120) = 6305039478318694 / 2 ^ 53"
    by (subst round_real_eval [of "- 1"]) (simp_all add: round_half_even_def frac_def)
  moreover have "round_double (84 / 120) = Finite (round_real (84 / 120))"
    by (rule round_double_small) simp
  ultimately show ?thesis unfolding default_required_mos_value by (simp only:)
qed

lemma quotient_100: "round_double (100 / 120) = Finite (7505999378950827 / 2 ^ 53)"
proof -
  have "round_real (100 / 120) = 7505999378950827 / 2 ^ 53"
    by (subst round_real_eval [of "- 1"]) (simp_all add: round_half_even_def frac_def)
  moreover have "round_double (100 / 120) = Finite (round_real (100 / 120))"
    by (rule round_double_small) simp
  ultimately show ?thesis by (simp only:)
qed

lemma is_buyable_iff:
  assumes "0 < conservative self" "is_double r"
  shows "is_buyable self p r = Inr (round_real (p / conservative self) \<le> r)"
proof -
  have r: "\<bar>r\<bar> < overflow_threshold" using assms(2) by (rule is_doubleD)
  have "f_le (round_double q) (Finite r) \<longleftrightarrow> round_real q \<le> r" for q
  proof -
    consider "overflow_threshold \<le> round_real q"
      | "round_real q \<le> - overflow_threshold"
      | "\<not> overflow_threshold \<le> round_real q" "\<not> round_real q \<le> - overflow_threshold"
      by blast
    then show ?thesis
    proof cases
      case 1
      with r have "\<not> round_real q \<le> r" by linarith
      with 1 show ?thesis by (simp add: round_double_cases)
    next
      case 2
      with r have "round_real q \<le> r" "\<not> overflow_threshold \<le> round_real q" by linarith+
      with 2 show ?thesis by (simp add: round_double_cases)
    next
      case 3
      then show ?thesis by (simp add: round_double_cases)
    qed
  qed
  with assms(1) show ?thesis by (simp add: is_buyable_def margin_of_safety_def)
qed

lemma is_buyable_exact:
  assumes "0 < conservative self" "is_double r" "p / conservative self \<le> r"
  shows "is_buyable self p r = Inr True"
proof -
  have "round_real (p / conservative self) \<le> round_real r"
    using assms(3) by (rule round_real_mono)
  also have "round_real r = r" using assms(2) by (rule is_doubleD)
  finally show ?thesis using is_buyable_iff [OF assms(1,2)] by simp
qed

text \<open>
  C1. For every price \<open>p\<close>, conservative value \<open>c > 0\<close> and required threshold \<open>r\<close>
  (a double), the gate answers "has margin of safety" exactly when \<open>p / c \<le> r\<close>, the
  boundary included, where \<open>p / c\<close> is the quotient the program computes: the double
  nearest to the exact one. An exact quotient that is \<open>\<le> r\<close> always passes. The
  buy-below price is \<open>c * r\<close>, the product the program computes. With \<open>c = 120\<close> and
  \<open>r = 0.7\<close> the buy-below price is 84.0, the ratio of the price 84.0 is the double
  0.7, and that price has a margin of safety.
\<close>

theorem mos_gate_classification:
  assumes "0 < conservative self" "is_double r"
  shows "is_buyable self p r = Inr (round_real (p / conservative self) \<le> r)
       \<and> (p / conservative self \<le> r \<longrightarrow> is_buyable self p r = Inr True)
       \<and> buy_below_price self r = round_double (conservative self * r)
       \<and> (conservative self = 120 \<longrightarrow>
            buy_below_price self default_required_mos = Finite 84
          \<and> margin_of_safety self 84 = Inr (Finite default_required_mos)
          \<and> is_buyable self 84 default_required_mos = Inr True)"
proof (intro conjI impI)
  show "is_buyable self p r = Inr (round_real (p / conservative self) \<le> r)"
    using assms by (rule is_buyable_iff)
  show "is_buyable self p r = Inr True" if "p / conservative self \<le> r"
    using assms that by (rule is_buyable_exact)
  show "buy_below_price self r = round_double (conservative self * r)"
    by (simp only: buy_below_price_def)
next
  assume c: "conservative self = 120"
  show "buy_below_price self default_required_mos = Finite 84"
    unfolding buy_below_price_def c by (rule product_120)
  show m: "margin_of_safety self 84 = Inr (Finite default_required_mos)"
    using quotient_84 by (simp add: margin_of_safety_def c)
  show "is_buyable self 84 default_required_mos = Inr True"
    by (simp add: is_buyable_def m)
qed

theorem mos_gate_classification_witness:
  "0 < conservative example_range
   \<and> is_double default_required_mos
   \<and> 60 / conservative example_range \<le> default_required_mos
   \<and> is_buyable example_range 60 default_required_mos = Inr True
   \<and> buy_below_price example_range default_required_mos = Finite 84
   \<and> margin_of_safety example_range 84 = Inr (Finite default_required_mos)
   \<and> is_buyable example_range 84 default_required_mos = Inr True
   \<and> is_buyable example_range 100 default_required_mos = Inr False"
proof -
  have h: "0 < conservative example_range" by (simp add: example_range_def)
  have c: "conservative example_range = 120" by (simp add: example_range_def)
  note d = default_required_mos_is_double
  have "is_buyable example_range 100 default_required_mos = Inr False"
    using quotient_100
    by (simp add: is_buyable_def margin_of_safety_def c default_required_mos_value)
  moreover have "buy_below_price example_range default_required_mos = Finite 84
      \<and> margin_of_safety example_range 84 = Inr (Finite default_required_mos)
      \<and> is_buyable example_range 84 default_required_mos = Inr True"
    using c mos_gate_classification [OF h d, of 84] by blast
  moreover have e: "60 / conservative example_range \<le> default_required_mos"
    by (simp add: c default_required_mos_value)
  moreover have "is_buyable example_range 60 default_required_mos = Inr True"
    using e mos_gate_classification [OF h d, of 60] by blast
  ultimately show ?thesis using h d by blast
qed

text \<open>
  Rounding shows at the boundary. The quotient \<open>1 / 3\<close> is computed as the double
  below one third, so the price 1 passes a threshold equal to that double although the
  exact quotient is above it. With the conservative value 187 the buy-below price at
  0.7 is the double 130.9, and its own ratio is computed as the double above 0.7: the
  buy-below price does not pass the gate there.
\<close>

lemma gate_compares_rounded_quotient:
  "is_double (6004799503160661 / 2 ^ 54)
   \<and> \<not> (1 / 3 \<le> (6004799503160661 / 2 ^ 54 :: real))
   \<and> is_buyable \<lparr>conservative = 3, base = 3, optimistic = 3, method_tag = '''',
        confidence = ()\<rparr> 1 (6004799503160661 / 2 ^ 54) = Inr True"
proof -
  have t: "round_real (1 / 3) = 6004799503160661 / 2 ^ 54"
    by (subst round_real_eval [of "- 2"]) (simp_all add: round_half_even_def frac_def)
  have "round_real (6004799503160661 / 2 ^ 54) = 6004799503160661 / 2 ^ 54"
    by (subst round_real_eval [of "- 2"]) (simp_all add: round_half_even_def frac_def)
  moreover have "round_double (6004799503160661 / 2 ^ 54)
      = Finite (round_real (6004799503160661 / 2 ^ 54))"
    by (rule round_double_small) simp
  ultimately have d: "is_double (6004799503160661 / 2 ^ 54)"
    unfolding is_double_def by (simp only:)
  have "round_double (1 / 3) = Finite (round_real (1 / 3))"
    by (rule round_double_small) simp
  with t have "round_double (1 / 3) = Finite (6004799503160661 / 2 ^ 54)" by (simp only:)
  then have "is_buyable \<lparr>conservative = 3, base = 3, optimistic = 3, method_tag = '''',
        confidence = ()\<rparr> 1 (6004799503160661 / 2 ^ 54) = Inr True"
    by (simp add: is_buyable_def margin_of_safety_def)
  with d show ?thesis by simp
qed

lemma buy_below_price_may_fail_gate:
  "buy_below_price \<lparr>conservative = 187, base = 187, optimistic = 187, method_tag = '''',
        confidence = ()\<rparr> default_required_mos = Finite (4605634306428109 / 2 ^ 45)
   \<and> \<bar>4605634306428109 / 2 ^ 45 - 130.9\<bar> < (1 / 10 ^ 13 :: real)
   \<and> is_buyable \<lparr>conservative = 187, base = 187, optimistic = 187, method_tag = '''',
        confidence = ()\<rparr> (4605634306428109 / 2 ^ 45) default_required_mos = Inr False"
proof -
  have "round_real (187 * (6305039478318694 / 2 ^ 53)) = 4605634306428109 / 2 ^ 45"
    by (subst round_real_eval [of 7]) (simp_all add: round_half_even_def frac_def)
  moreover have "round_double (187 * (6305039478318694 / 2 ^ 53))
      = Finite (round_real (187 * (6305039478318694 / 2 ^ 53)))"
    by (rule round_double_small) simp
  ultimately have p: "round_double (187 * default_required_mos)
      = Finite (4605634306428109 / 2 ^ 45)"
    unfolding default_required_mos_value by (simp only:)
  have "round_real (4605634306428109 / 2 ^ 45 / 187) = 6305039478318695 / 2 ^ 53"
    by (subst round_real_eval [of "- 1"]) (simp_all add: round_half_even_def frac_def)
  moreover have "round_double (4605634306428109 / 2 ^ 45 / 187)
      = Finite (round_real (4605634306428109 / 2 ^ 45 / 187))"
    by (rule round_double_small) simp
  ultimately have q: "round_double (4605634306428109 / 2 ^ 45 / 187)
      = Finite (6305039478318695 / 2 ^ 53)"
    by (simp only:)
  have "buy_below_price \<lparr>conservative = 187, base = 187, optimistic = 187,
        method_tag = '''', confidence = ()\<rparr> default_required_mos
      = Finite (4605634306428109 / 2 ^ 45)"
    using p by (simp add: buy_below_price_def)
  moreover have "is_buyable \<lparr>conservative = 187, base = 187, optimistic = 187,
        method_tag = '''', confidence = ()\<rparr> (4605634306428109 / 2 ^ 45)
        default_required_mos = Inr False"
    using q by (simp add: is_buyable_def margin_of_safety_def default_required_mos_value)
  ultimately show ?thesis by simp
qed

text \<open>
  C8. For a conservative value \<open>> 0\<close> the ratio price / conservative grows with the
  price: \<open>p1 \<le> p2\<close> gives \<open>mos(p1, c) \<le> mos(p2, c)\<close>. For a price \<open>p \<ge> 0\<close> (prices
  and ratios are not negative) it falls as the conservative value grows:
  \<open>0 < c1 \<le> c2\<close> gives \<open>mos(p, c1) \<ge> mos(p, c2)\<close>. The ratios are the doubles the
  program computes, compared as doubles; rounding and overflow keep the order.
\<close>

theorem mos_ratio_monotone:
  assumes "0 < conservative self"
  shows "(p1 \<le> p2 \<longrightarrow>
            (\<exists>m1 m2. margin_of_safety self p1 = Inr m1
               \<and> margin_of_safety self p2 = Inr m2 \<and> f_le m1 m2))
       \<and> (0 \<le> p \<and> conservative self \<le> conservative other \<longrightarrow>
            (\<exists>m1 m2. margin_of_safety self p = Inr m1
               \<and> margin_of_safety other p = Inr m2 \<and> f_le m2 m1))"
proof (intro conjI impI)
  assume "p1 \<le> p2"
  with assms have "p1 / conservative self \<le> p2 / conservative self"
    by (simp add: divide_right_mono)
  then have "f_le (round_double (p1 / conservative self))
      (round_double (p2 / conservative self))"
    by (rule round_double_mono)
  with assms show "\<exists>m1 m2. margin_of_safety self p1 = Inr m1
      \<and> margin_of_safety self p2 = Inr m2 \<and> f_le m1 m2"
    by (simp add: margin_of_safety_def)
next
  assume h: "0 \<le> p \<and> conservative self \<le> conservative other"
  with assms have o: "0 < conservative other" by simp
  from assms h have "p / conservative other \<le> p / conservative self"
    by (simp add: frac_le)
  then have "f_le (round_double (p / conservative other))
      (round_double (p / conservative self))"
    by (rule round_double_mono)
  with assms o show "\<exists>m1 m2. margin_of_safety self p = Inr m1
      \<and> margin_of_safety other p = Inr m2 \<and> f_le m2 m1"
    by (simp add: margin_of_safety_def)
qed

theorem mos_ratio_monotone_witness:
  "0 < conservative example_range
   \<and> (84::real) \<le> 100
   \<and> (\<exists>m1 m2. margin_of_safety example_range 84 = Inr m1
         \<and> margin_of_safety example_range 100 = Inr m2 \<and> f_le m1 m2)
   \<and> (0::real) \<le> 100
   \<and> conservative example_range \<le> conservative richer_range
   \<and> (\<exists>m1 m2. margin_of_safety example_range 100 = Inr m1
         \<and> margin_of_safety richer_range 100 = Inr m2 \<and> f_le m2 m1)"
proof -
  have h: "0 < conservative example_range" by (simp add: example_range_def)
  have c: "conservative example_range \<le> conservative richer_range"
    by (simp add: example_range_def richer_range_def)
  show ?thesis
    using h c mos_ratio_monotone [OF h, of 84 100 100 richer_range] by simp
qed

subsection \<open>Construction of a valuation range\<close>

text \<open>
  C6 (as amended). A ValuationRange holds exactly the conservative, base and
  optimistic values it is constructed with (the class has no validation, clamping or
  reordering), so a constructed range satisfies conservative \<open>\<le>\<close> base \<open>\<le>\<close> optimistic
  exactly when its constructor arguments do.
\<close>

theorem range_keeps_constructor_values:
  "conservative \<lparr>conservative = c, base = b, optimistic = opt, method_tag = m,
        confidence = cf\<rparr> = c
   \<and> base \<lparr>conservative = c, base = b, optimistic = opt, method_tag = m,
        confidence = cf\<rparr> = b
   \<and> optimistic \<lparr>conservative = c, base = b, optimistic = opt, method_tag = m,
        confidence = cf\<rparr> = opt
   \<and> (range_ordered \<lparr>conservative = c, base = b, optimistic = opt, method_tag = m,
        confidence = cf\<rparr> \<longleftrightarrow> c \<le> b \<and> b \<le> opt)"
  by (simp add: range_ordered_def)

text \<open>
  C6 as first stated promises an ordered range whatever the raw values are. A range
  constructed from 200 / 150 / 100 keeps these values and is not ordered.
\<close>

theorem unordered_range_counterexample:
  "conservative \<lparr>conservative = 200, base = 150, optimistic = 100, method_tag = ''dcf'',
        confidence = ()\<rparr> = 200
   \<and> optimistic \<lparr>conservative = 200, base = 150, optimistic = 100, method_tag = ''dcf'',
        confidence = ()\<rparr> = 100
   \<and> \<not> range_ordered \<lparr>conservative = 200, base = 150, optimistic = 100,
        method_tag = ''dcf'', confidence = ()\<rparr>"
  by (simp add: range_ordered_def)

text \<open>
  The composite of ordered ranges: its conservative value is at most its base value
  when the weights are positive, but its base value can lie above its optimistic value
  (a heavily weighted method with high values, a lightly weighted one with low values).
\<close>

lemma sum_list_pos_weights:
  assumes "ranges \<noteq> []" "\<And>r. r \<in> set ranges \<Longrightarrow> 0 < (w r :: real)"
  shows "0 < sum_list (map w ranges)"
proof (cases ranges)
  case Nil
  with assms(1) show ?thesis by simp
next
  case (Cons a rs)
  with assms(2) have "0 < w a" by simp
  moreover have "0 \<le> sum_list (map w rs)"
  proof (rule sum_list_nonneg)
    fix x assume "x \<in> set (map w rs)"
    then obtain r where "r \<in> set rs" "x = w r" by auto
    with assms(2) [of r] Cons show "0 \<le> x" by simp
  qed
  ultimately show ?thesis using Cons by (simp add: add_pos_nonneg)
qed

lemma composite_conservative_le_base:
  assumes "build_composite_valuation weight ranges = Some c"
    and ord: "\<And>r. r \<in> set ranges \<Longrightarrow> range_ordered r"
    and pos: "\<And>r. r \<in> set ranges \<Longrightarrow> 0 < weight (confidence r)"
  shows "composite_conservative c \<le> composite_base c"
proof -
  from assms(1) have ne: "ranges \<noteq> []"
    by (auto simp add: build_composite_valuation_def split: if_splits)
  let ?m = "Min (set (map conservative ranges))"
  let ?w = "\<lambda>r. weight (confidence r)"
  have low: "?m \<le> base r" if "r \<in> set ranges" for r
  proof -
    have "?m \<le> conservative r" using that by (intro Min_le) auto
    also have "\<dots> \<le> base r" using ord [OF that] by (simp add: range_ordered_def)
    finally show ?thesis .
  qed
  have tot: "0 < sum_list (map ?w ranges)"
    using ne pos by (rule sum_list_pos_weights)
  have "sum_list (map (\<lambda>r. ?w r * ?m) ranges)
      \<le> sum_list (map (\<lambda>r. ?w r * base r) ranges)"
    by (rule sum_list_mono) (use low pos in \<open>auto intro: mult_left_mono less_imp_le\<close>)
  moreover have "sum_list (map (\<lambda>r. ?w r * ?m) ranges) = ?m * sum_list (map ?w ranges)"
    by (simp add: sum_list_mult_const mult.commute)
  ultimately have "?m * sum_list (map ?w ranges)
      \<le> sum_list (map (\<lambda>r. ?w r * base r) ranges)"
    by simp
  with tot have "?m \<le> sum_list (map (\<lambda>r. ?w r * base r) ranges) / sum_list (map ?w ranges)"
    by (simp add: pos_le_divide_eq)
  with assms(1) ne show ?thesis
    by (auto simp add: build_composite_valuation_def)
qed

lemma composite_base_above_optimistic:
  "range_ordered \<lparr>conservative = 10, base = 100, optimistic = 110, method_tag = ''dcf'',
        confidence = True\<rparr>
   \<and> range_ordered \<lparr>conservative = 1, base = 2, optimistic = 3, method_tag = ''book'',
        confidence = False\<rparr>
   \<and> build_composite_valuation (\<lambda>high. if high then 9 else 1)
        [\<lparr>conservative = 10, base = 100, optimistic = 110, method_tag = ''dcf'',
            confidence = True\<rparr>,
         \<lparr>conservative = 1, base = 2, optimistic = 3, method_tag = ''book'',
            confidence = False\<rparr>]
      = Some \<lparr>composite_conservative = 1, composite_base = 90.2,
           composite_optimistic = 56.5\<rparr>
   \<and> \<not> composite_ordered \<lparr>composite_conservative = 1, composite_base = 90.2,
           composite_optimistic = 56.5\<rparr>"
  by (simp add: build_composite_valuation_def range_ordered_def composite_ordered_def)

subsection \<open>Style weights\<close>

text \<open>
  C7. For each of the six investment styles (Deep Value, Quality Value, GARP, Magic
  Formula, Growth, Balanced) the five lens weights sum to exactly 1.
\<close>

theorem style_weights_sum_to_one: "weights_total (style_weights style) = 1"
  by (cases style) (simp_all add: weights_total_def percent_def)

lemma default_weights_sum_to_one: "weights_total default_weights = 1"
  by (simp add: weights_total_def default_weights_def)

subsection \<open>Graham Number\<close>

lemma sqrt_2812_5_bounds: "53.025 < sqrt 2812.5 \<and> sqrt 2812.5 < 53.035"
proof
  show "53.025 < sqrt 2812.5"
    by (rule real_less_rsqrt) (simp add: power2_eq_square)
  show "sqrt 2812.5 < 53.035"
    by (rule real_less_lsqrt) (simp_all add: power2_eq_square)
qed

lemma close_to_53_03:
  "53.025 < s \<Longrightarrow> s < 53.035 \<Longrightarrow> \<bar>s - 53.03\<bar> < (0.005::real)"
  by (simp add: abs_if)

lemma graham_example_close: "\<bar>sqrt 2812.5 - 53.03\<bar> < (0.005::real)"
  using sqrt_2812_5_bounds by (intro close_to_53_03) simp_all

text \<open>
  C3. For EPS \<open>> 0\<close> and book value per share \<open>> 0\<close> the Graham Number is
  \<open>sqrt (22.5 * EPS * BVPS)\<close>; for EPS = 5 and BVPS = 25 it is \<open>sqrt 2812.5\<close>, which
  rounds to 53.03; for EPS \<open>\<le> 0\<close> or BVPS \<open>\<le> 0\<close> it is omitted (\<open>None\<close>), and no
  error is raised.
\<close>

theorem graham_number_formula:
  "(0 < eps \<and> 0 < bvps \<longrightarrow>
      calculate_graham_number eps bvps = Some (sqrt (22.5 * eps * bvps)))
   \<and> (eps \<le> 0 \<or> bvps \<le> 0 \<longrightarrow> calculate_graham_number eps bvps = None)
   \<and> (\<exists>g. calculate_graham_number 5 25 = Some g \<and> g = sqrt 2812.5
         \<and> \<bar>g - 53.03\<bar> < 0.005)"
proof (intro conjI impI)
  have "calculate_graham_number 5 25 = Some (sqrt 2812.5)"
    by (simp add: calculate_graham_number_def)
  then show "\<exists>g. calculate_graham_number 5 25 = Some g \<and> g = sqrt 2812.5
      \<and> \<bar>g - 53.03\<bar> < 0.005"
    using graham_example_close by blast
qed (auto simp add: calculate_graham_number_def)

theorem graham_number_formula_witness:
  "(0::real) < 5 \<and> (0::real) < 25
   \<and> calculate_graham_number 5 25 = Some (sqrt (22.5 * 5 * 25))
   \<and> (- 1 :: real) \<le> 0
   \<and> calculate_graham_number (- 1) 25 = None
   \<and> calculate_graham_number 5 0 = None"
  using graham_number_formula [of 5 25] graham_number_formula [of "- 1" 25]
    graham_number_formula [of 5 0]
  by simp

text \<open>The call in docs/api-reference.md is annotated "Returns: 75.0"; the formula
  gives about 53.03 there.\<close>

lemma graham_number_example_is_not_75: "calculate_graham_number 5 25 \<noteq> Some 75"
  using sqrt_2812_5_bounds by (simp add: calculate_graham_number_def)

subsection \<open>The decision matrix\<close>

lemma in_quality_tier_iff: "in_quality_tier t q \<longleftrightarrow> t = quality_tier_of q"
  by (cases t) (auto simp add: quality_tier_of_def)

lemma in_mos_tier_iff: "in_mos_tier b m \<longleftrightarrow> b = mos_tier_of m"
  by (cases b) (auto simp add: mos_tier_of_def)

lemma verdicts_at_single: "verdicts_at q m = [determine_verdict q m]"
  unfolding verdicts_at_def matrix_cells_def determine_verdict_def
    in_quality_tier_iff in_mos_tier_iff
  by (cases "quality_tier_of q"; cases "mos_tier_of m") simp_all

lemma verdict_enumerated: "v \<in> set all_verdicts"
  by (cases v) (simp_all add: all_verdicts_def)

text \<open>
  C2. The verdict is a total, deterministic function of the quality score in \<open>[0, 100]\<close>
  and the MoS ratio in \<open>[0, \<infinity>)\<close>: the bands of exactly one cell of the matrix
  hold the pair (no cell overlaps another, and no pair is left out), the verdict is the
  one of that cell, and it is one of the nine enumerated verdicts.
\<close>

theorem verdict_total_deterministic:
  assumes "0 \<le> q" "q \<le> 100" "0 \<le> m"
  shows "verdicts_at q m = [determine_verdict q m]
       \<and> in_quality_tier (quality_tier_of q) q \<and> in_mos_tier (mos_tier_of m) m
       \<and> determine_verdict q m \<in> set all_verdicts
       \<and> length all_verdicts = 9 \<and> distinct all_verdicts"
proof -
  have "length all_verdicts = 9 \<and> distinct all_verdicts"
    by (simp add: all_verdicts_def)
  then show ?thesis
    by (simp add: verdicts_at_single verdict_enumerated in_quality_tier_iff in_mos_tier_iff)
qed

theorem verdict_total_deterministic_witness:
  "(0::real) \<le> 85 \<and> (85::real) \<le> 100 \<and> (0::real) \<le> 0.45
   \<and> verdicts_at 85 0.45 = [STRONG_BUY]
   \<and> (0::real) \<le> 35 \<and> (35::real) \<le> 100 \<and> (0::real) \<le> 1.3
   \<and> verdicts_at 35 1.3 = [REDUCE]"
  using verdict_total_deterministic [of 85 "0.45"] verdict_total_deterministic [of 35 "1.3"]
  by (simp add: determine_verdict_def quality_tier_of_def mos_tier_of_def)

text \<open>Further readings of the matrix.\<close>

lemma matrix_scenarios:
  "determine_verdict 85 0.45 = STRONG_BUY"
  "determine_verdict 35 1.3 = REDUCE"
  "determine_verdict 35 0.9 = AVOID"
  "determine_verdict 85 1.25 = WATCHLIST"
  by (simp_all add: determine_verdict_def quality_tier_of_def mos_tier_of_def)

subsection \<open>The decision flow\<close>



text \<open>
  The matrix of the decision engine has finer columns than the flow: its cell for the
  high tier and a ratio between 0.7 and 1.0 reads ACCUMULATE.
\<close>

lemma matrix_reading_of_scenario:
  "determine_verdict 85 (7505999378950827 / 2 ^ 53) = ACCUMULATE"
  by (simp add: determine_verdict_def quality_tier_of_def mos_tier_of_def)

subsection \<open>Order of the pick list\<close>

lemma verdict_case_text: "verdict_case (verdict_text v) = VERDICT_PRIORITY v"
  by (cases v) (simp_all add: verdict_case_def)

lemma verdict_rank_priority: "verdict_rank r = VERDICT_PRIORITY (verdict r)"
  by (simp add: verdict_rank_def verdict_case_text)

lemma desc_nulls_last_irrefl: "\<not> desc_nulls_last a a"
  by (cases a) simp_all

lemma desc_nulls_last_asym: "desc_nulls_last a b \<Longrightarrow> \<not> desc_nulls_last b a"
  by (cases a; cases b) simp_all

lemma desc_nulls_last_trans:
  "desc_nulls_last a b \<Longrightarrow> desc_nulls_last b c \<Longrightarrow> desc_nulls_last a c"
  by (cases a; cases b; cases c) simp_all

lemma desc_nulls_last_linear: "desc_nulls_last a b \<or> a = b \<or> desc_nulls_last b a"
  by (cases a; cases b) auto

lemma desc_nulls_last_negtrans:
  "\<not> desc_nulls_last b a \<Longrightarrow> \<not> desc_nulls_last c b \<Longrightarrow> \<not> desc_nulls_last c a"
  by (cases a; cases b; cases c) simp_all

text \<open>The three-key order on abstract keys: rank, then two descending nullable keys.\<close>

lemma lex_le_iff:
  fixes ra rb :: nat
  shows "\<not> (rb < ra \<or> (rb = ra \<and> (desc_nulls_last qb qa
              \<or> (qb = qa \<and> desc_nulls_last pb pa))))
     \<longleftrightarrow> ra < rb \<or> (ra = rb \<and> (desc_nulls_last qa qb
              \<or> (qa = qb \<and> \<not> desc_nulls_last pb pa)))"
  by (cases qa; cases qb) auto

lemma lex_le_trans:
  fixes ra rb rc :: nat
  assumes "ra < rb \<or> (ra = rb \<and> (desc_nulls_last qa qb
           \<or> (qa = qb \<and> \<not> desc_nulls_last pb pa)))"
    and "rb < rc \<or> (rb = rc \<and> (desc_nulls_last qb qc
           \<or> (qb = qc \<and> \<not> desc_nulls_last pc pb)))"
  shows "ra < rc \<or> (ra = rc \<and> (desc_nulls_last qa qc
           \<or> (qa = qc \<and> \<not> desc_nulls_last pc pa)))"
proof -
  consider "ra < rb \<or> rb < rc" | "ra = rb" "rb = rc" using assms by blast
  then show ?thesis
  proof cases
    case 1
    with assms show ?thesis by auto
  next
    case 2
    consider "desc_nulls_last qa qb" "desc_nulls_last qb qc"
      | "desc_nulls_last qa qb" "qb = qc"
      | "qa = qb" "desc_nulls_last qb qc"
      | "qa = qb" "qb = qc" "\<not> desc_nulls_last pb pa" "\<not> desc_nulls_last pc pb"
      using assms 2 by auto
    then show ?thesis
    proof cases
      case 1
      then show ?thesis using 2 desc_nulls_last_trans by blast
    next
      case 4
      then show ?thesis using 2 desc_nulls_last_negtrans by blast
    qed (use 2 in auto)
  qed
qed

lemma lex_tie_iff:
  fixes ra rb :: nat
  shows "\<not> (rb < ra \<or> (rb = ra \<and> (desc_nulls_last qb qa
             \<or> (qb = qa \<and> desc_nulls_last pb pa))))
       \<and> \<not> (ra < rb \<or> (ra = rb \<and> (desc_nulls_last qa qb
             \<or> (qa = qb \<and> desc_nulls_last pa pb))))
     \<longleftrightarrow> ra = rb \<and> qa = qb \<and> pa = pb"
  by (cases qa; cases qb; cases pa; cases pb) auto

lemma top_picks_le_iff:
  "top_picks_le a b \<longleftrightarrow>
     verdict_rank a < verdict_rank b
     \<or> (verdict_rank a = verdict_rank b
        \<and> (desc_nulls_last (quality_score a) (quality_score b)
           \<or> (quality_score a = quality_score b
              \<and> \<not> desc_nulls_last (pad_mosee b) (pad_mosee a))))"
  unfolding top_picks_le_def top_picks_before_def by (rule lex_le_iff)

lemma top_picks_le_trans:
  assumes "top_picks_le a b" "top_picks_le b c"
  shows "top_picks_le a c"
  using assms unfolding top_picks_le_iff by (rule lex_le_trans)

lemma top_picks_le_total: "top_picks_le a b \<or> top_picks_le b a"
  unfolding top_picks_le_def top_picks_before_def
  using desc_nulls_last_asym by fastforce

lemma top_picks_tie_iff:
  "top_picks_le a b \<and> top_picks_le b a \<longleftrightarrow>
     verdict_rank a = verdict_rank b \<and> quality_score a = quality_score b
     \<and> pad_mosee a = pad_mosee b"
  unfolding top_picks_le_def top_picks_before_def by (rule lex_tie_iff)

lemma all_analyses_le_iff:
  "all_analyses_le a b \<longleftrightarrow>
     verdict_rank a < verdict_rank b
     \<or> (verdict_rank a = verdict_rank b
        \<and> \<not> desc_nulls_last (pad_mosee b) (pad_mosee a))"
  unfolding all_analyses_le_def all_analyses_before_def by auto

lemma all_analyses_le_trans:
  assumes "all_analyses_le a b" "all_analyses_le b c"
  shows "all_analyses_le a c"
  using assms desc_nulls_last_negtrans [of "pad_mosee b" "pad_mosee a" "pad_mosee c"]
  unfolding all_analyses_le_iff by auto

lemma all_analyses_le_total: "all_analyses_le a b \<or> all_analyses_le b a"
  unfolding all_analyses_le_def all_analyses_before_def
  using desc_nulls_last_asym by fastforce

lemma all_analyses_tie_iff:
  "all_analyses_le a b \<and> all_analyses_le b a \<longleftrightarrow>
     verdict_rank a = verdict_rank b \<and> pad_mosee a = pad_mosee b"
  unfolding all_analyses_le_iff
  using desc_nulls_last_linear [of "pad_mosee a" "pad_mosee b"]
    desc_nulls_last_irrefl [of "pad_mosee a"]
    desc_nulls_last_asym [of "pad_mosee a" "pad_mosee b"] by auto

text \<open>The insertion sort returns a sorted permutation of its input.\<close>

lemma set_insert_row: "set (insert_row le x xs) = insert x (set xs)"
  by (induction xs) auto

lemma mset_insert_row: "mset (insert_row le x xs) = add_mset x (mset xs)"
  by (induction xs) auto

lemma sorted_insert_row:
  assumes total: "\<And>a b. le a b \<or> le b a"
    and trans: "\<And>a b c. le a b \<Longrightarrow> le b c \<Longrightarrow> le a c"
    and "sorted_wrt le xs"
  shows "sorted_wrt le (insert_row le x xs)"
  using assms(3)
proof (induction xs)
  case Nil
  then show ?case by simp
next
  case (Cons y ys)
  show ?case
  proof (cases "le x y")
    case True
    with Cons.prems trans show ?thesis by auto
  next
    case False
    with total have "le y x" by blast
    with Cons False show ?thesis by (auto simp add: set_insert_row)
  qed
qed

lemma mset_order_by: "mset (order_by le xs) = mset xs"
  by (induction xs) (simp_all add: order_by_def mset_insert_row)

lemma sorted_order_by:
  assumes "\<And>a b. le a b \<or> le b a"
    and "\<And>a b c. le a b \<Longrightarrow> le b c \<Longrightarrow> le a c"
  shows "sorted_wrt le (order_by le xs)"
proof (induction xs)
  case Nil
  show ?case by (simp add: order_by_def)
next
  case (Cons x xs)
  have "order_by le (x # xs) = insert_row le x (order_by le xs)"
    by (simp add: order_by_def)
  with Cons assms show ?case
    using sorted_insert_row [of le "order_by le xs" x] by auto
qed

lemma sorted_wrt_take_any: "sorted_wrt R xs \<Longrightarrow> sorted_wrt R (take n xs)"
  by (metis append_take_drop_id sorted_wrt_append)

lemma sorted_getTopPicks: "sorted_wrt top_picks_le (getTopPicks limit table)"
  unfolding getTopPicks_def
  by (intro sorted_wrt_take_any sorted_order_by top_picks_le_total)
    (rule top_picks_le_trans)

lemma sorted_getAllAnalyses: "sorted_wrt all_analyses_le (getAllAnalyses table)"
  unfolding getAllAnalyses_def
  by (intro sorted_order_by all_analyses_le_total) (rule all_analyses_le_trans)

lemma getTopPicks_rows:
  "mset (getTopPicks limit table) \<subseteq># mset (latest_rows table)
   \<and> length (getTopPicks limit table) = min limit (length (latest_rows table))"
proof -
  let ?s = "order_by top_picks_le (latest_rows table)"
  have "mset (take limit ?s) \<subseteq># mset ?s"
    by (metis append_take_drop_id mset_append mset_subset_eq_add_left)
  moreover have "length ?s = length (latest_rows table)"
    by (metis mset_order_by size_mset)
  ultimately show ?thesis by (simp add: getTopPicks_def mset_order_by min.commute)
qed

lemmas pick_defs = pick_a_def pick_b_def pick_c_def pick_d_def pick_old_def

lemmas query_defs = getTopPicks_def getAllAnalyses_def order_by_def latest_rows_def
  max_analysis_date_def top_picks_le_def top_picks_before_def all_analyses_le_def
  all_analyses_before_def verdict_rank_def verdict_case_def

text \<open>
  C5 (as amended). The top-picks list (getTopPicks: rows of the latest analysis date,
  at most \<open>limit\<close> of them) is ordered by, in this order: verdict priority (STRONG
  BUY = 1 down to INSUFFICIENT DATA = 9), then quality score descending (nulls last),
  then the PAD-based MOSEE score descending (nulls last). No sort applied to the pick
  list (getTopPicks, getAllAnalyses) has a ticker tie-break: two records compare equal
  exactly when they agree on the keys of the sort, whatever their tickers are.
  The theorem also records the keys of getAllAnalyses as they are written: verdict
  priority, then the PAD-based MOSEE score.
\<close>

theorem pick_list_order:
  "sorted_wrt top_picks_le (getTopPicks limit table)
   \<and> mset (getTopPicks limit table) \<subseteq># mset (latest_rows table)
   \<and> length (getTopPicks limit table) = min limit (length (latest_rows table))
   \<and> sorted_wrt all_analyses_le (getAllAnalyses table)
   \<and> mset (getAllAnalyses table) = mset (latest_rows table)
   \<and> (top_picks_le a b \<longleftrightarrow>
        VERDICT_PRIORITY (verdict a) < VERDICT_PRIORITY (verdict b)
        \<or> (VERDICT_PRIORITY (verdict a) = VERDICT_PRIORITY (verdict b)
           \<and> (desc_nulls_last (quality_score a) (quality_score b)
              \<or> (quality_score a = quality_score b
                 \<and> \<not> desc_nulls_last (pad_mosee b) (pad_mosee a)))))
   \<and> (all_analyses_le a b \<longleftrightarrow>
        VERDICT_PRIORITY (verdict a) < VERDICT_PRIORITY (verdict b)
        \<or> (VERDICT_PRIORITY (verdict a) = VERDICT_PRIORITY (verdict b)
           \<and> \<not> desc_nulls_last (pad_mosee b) (pad_mosee a)))
   \<and> (top_picks_le a b \<and> top_picks_le b a \<longleftrightarrow>
        VERDICT_PRIORITY (verdict a) = VERDICT_PRIORITY (verdict b)
        \<and> quality_score a = quality_score b \<and> pad_mosee a = pad_mosee b)
   \<and> (all_analyses_le a b \<and> all_analyses_le b a \<longleftrightarrow>
        VERDICT_PRIORITY (verdict a) = VERDICT_PRIORITY (verdict b)
        \<and> pad_mosee a = pad_mosee b)"
  using sorted_getTopPicks [of limit table] getTopPicks_rows [of limit table]
    sorted_getAllAnalyses [of table] mset_order_by [of all_analyses_le "latest_rows table"]
    top_picks_le_iff [of a b] all_analyses_le_iff [of a b]
    top_picks_tie_iff [of a b] all_analyses_tie_iff [of a b]
  unfolding verdict_rank_priority getAllAnalyses_def [symmetric]
  by (simp only: simp_thms)

theorem pick_list_order_witness:
  "getTopPicks 3 [pick_old, pick_d, pick_b, pick_c, pick_a] = [pick_c, pick_b, pick_a]
   \<and> sorted_wrt top_picks_le [pick_c, pick_b, pick_a]
   \<and> getAllAnalyses [pick_old, pick_d, pick_b, pick_c, pick_a]
       = [pick_c, pick_d, pick_b, pick_a]
   \<and> sorted_wrt all_analyses_le [pick_c, pick_d, pick_b, pick_a]
   \<and> top_picks_le pick_a pick_b \<and> top_picks_le pick_b pick_a"
proof -
  have t: "getTopPicks 3 [pick_old, pick_d, pick_b, pick_c, pick_a] = [pick_c, pick_b, pick_a]"
    by (simp add: query_defs pick_defs)
  have g: "getAllAnalyses [pick_old, pick_d, pick_b, pick_c, pick_a]
       = [pick_c, pick_d, pick_b, pick_a]"
    by (simp add: query_defs pick_defs)
  have e: "VERDICT_PRIORITY (verdict pick_a) = VERDICT_PRIORITY (verdict pick_b)
      \<and> quality_score pick_a = quality_score pick_b \<and> pad_mosee pick_a = pad_mosee pick_b"
    by (simp add: pick_defs)
  show ?thesis
    using pick_list_order [of 3 "[pick_old, pick_d, pick_b, pick_c, pick_a]" pick_a pick_b] e
    unfolding t g by blast
qed

text \<open>
  C5 as first stated ends every sort with a ticker tie-break, so that no two records
  compare equal. The rows AAA and BBB differ in their tickers and compare equal under
  the keys of both queries (neither sorts before the other); the sort leaves them as
  the table holds them, BBB before AAA here.
\<close>

theorem pick_list_tie_counterexample:
  "ticker pick_a \<noteq> ticker pick_b
   \<and> ticker pick_a < ticker pick_b
   \<and> \<not> top_picks_before pick_a pick_b \<and> \<not> top_picks_before pick_b pick_a
   \<and> top_picks_le pick_a pick_b \<and> top_picks_le pick_b pick_a
   \<and> getTopPicks 10 [pick_b, pick_a] = [pick_b, pick_a]
   \<and> getAllAnalyses [pick_b, pick_a] = [pick_b, pick_a]"
  by (simp add: query_defs pick_defs)

subsection \<open>Magic Formula ranking\<close>

lemma rank_in_cong_tickers:
  "map mf_ticker xs = map mf_ticker ys \<Longrightarrow> rank_in t xs = rank_in t ys"
proof (induction xs arbitrary: ys)
  case Nil
  then show ?case by simp
next
  case (Cons x xs)
  then obtain y ys' where ys: "ys = y # ys'" by (cases ys) auto
  with Cons.prems have "mf_ticker x = mf_ticker y" "map mf_ticker xs = map mf_ticker ys'"
    by simp_all
  with Cons.IH [of ys'] ys show ?case by simp
qed

text \<open>Sorting two permutations of a list gives the same list of keys.\<close>

lemma sort_key_keys_perm:
  fixes k :: "'a \<Rightarrow> 'b::linorder"
  assumes "mset xs = mset ys"
  shows "map k (sort_key k xs) = map k (sort_key k ys)"
proof -
  have "sort (map k ys) = map k (sort_key k xs)"
    by (rule properties_for_sort) (simp_all add: assms)
  moreover have "sort (map k ys) = map k (sort_key k ys)"
    by (rule properties_for_sort) simp_all
  ultimately show ?thesis by simp
qed

lemma sort_key_tickers_perm:
  fixes v :: "MagicFormulaResult \<Rightarrow> real"
  assumes "mset xs = mset ys"
  shows "map mf_ticker (sort_key (\<lambda>r. (v r, mf_ticker r)) xs)
       = map mf_ticker (sort_key (\<lambda>r. (v r, mf_ticker r)) ys)"
proof -
  let ?k = "\<lambda>r. (v r, mf_ticker r)"
  have "map snd (map ?k (sort_key ?k xs)) = map snd (map ?k (sort_key ?k ys))"
    using sort_key_keys_perm [OF assms, of ?k] by simp
  then show ?thesis by (simp add: comp_def)
qed

text \<open>
  C9. The Magic Formula combined rank (earnings-yield rank plus return-on-capital
  rank, ties in a ranking resolved by ticker order) does not depend on the order of the
  input universe: for every list of records and every reordering of it, each ticker
  gets the same combined rank.
\<close>

theorem combined_rank_permutation_invariant:
  assumes "mset xs = mset ys"
  shows "combined_rank xs t = combined_rank ys t"
proof -
  have "rank_in t (rank_by_earnings_yield xs) = rank_in t (rank_by_earnings_yield ys)"
    unfolding rank_by_earnings_yield_def
    by (rule rank_in_cong_tickers) (rule sort_key_tickers_perm [OF assms])
  moreover
  have "rank_in t (rank_by_return_on_capital xs) = rank_in t (rank_by_return_on_capital ys)"
    unfolding rank_by_return_on_capital_def
    by (rule rank_in_cong_tickers) (rule sort_key_tickers_perm [OF assms])
  ultimately show ?thesis by (simp add: combined_rank_def)
qed

theorem combined_rank_permutation_invariant_witness:
  "mset universe = mset (rev universe)
   \<and> combined_rank universe ''AAA'' = Some 5
   \<and> combined_rank (rev universe) ''AAA'' = Some 5
   \<and> combined_rank universe ''BBB'' = Some 4
   \<and> combined_rank (rev universe) ''BBB'' = Some 4
   \<and> combined_rank (rev universe) ''CCC'' = Some 3"
proof -
  have h: "mset universe = mset (rev universe)" by simp
  have "combined_rank universe ''AAA'' = Some 5 \<and> combined_rank universe ''BBB'' = Some 4
      \<and> combined_rank universe ''CCC'' = Some 3"
    by (simp add: universe_def combined_rank_def rank_by_earnings_yield_def
        rank_by_return_on_capital_def)
  then show ?thesis
    using h combined_rank_permutation_invariant [OF h, of "''AAA''"]
      combined_rank_permutation_invariant [OF h, of "''BBB''"]
      combined_rank_permutation_invariant [OF h, of "''CCC''"]
    by simp
qed

subsection \<open>Display of the margin-of-safety ratio\<close>

lemma percent_not_na: "xs @ ''%'' \<noteq> ''N/A''"
proof
  assume "xs @ ''%'' = ''N/A''"
  then have "last (xs @ ''%'') = last ''N/A''" by simp
  then show False by simp
qed

lemma formatMoS_na_iff:
  "formatMoS ts v = ''N/A'' \<longleftrightarrow> v = None \<or> (\<exists>n. v = Some n \<and> \<not> isFinite n)"
  by (cases v) (auto simp add: formatMoS_def percent_not_na)

lemma formatMoS_over_10: "10 < x \<Longrightarrow> formatMoS ts (Some (Finite x)) = ''>10x''"
  by (simp add: formatMoS_def)

text \<open>The product of a ratio up to 10 with 100 is a double up to 1000.\<close>

lemma round_real_1000: "round_real 1000 = 1000"
  by (subst round_real_eval [of 9]) (simp_all add: round_half_even_def frac_def)

lemma product_le_1000:
  assumes "x \<le> 10"
  shows "round_real (x * 100) \<le> 1000"
proof -
  from assms have "x * 100 \<le> 1000" by simp
  then have "round_real (x * 100) \<le> round_real 1000" by (rule round_real_mono)
  then show ?thesis by (simp only: round_real_1000)
qed

lemma overflow_threshold_ge: "10 ^ 21 < overflow_threshold"
proof -
  have "(10::real) ^ 21 \<le> 2 ^ 70" by simp
  also have "(2::real) ^ 70 = 2 powi 70" by simp
  also have "(2::real) powi 70 < 2 powi max_exponent"
    unfolding max_exponent_def by (rule power_int_strict_increasing) simp_all
  finally show ?thesis by (simp only: overflow_threshold_def)
qed

lemma overflow_threshold_large: "1000 < overflow_threshold"
proof -
  have "(1000::real) < 10 ^ 21" by simp
  then show ?thesis using overflow_threshold_ge by (rule less_trans)
qed

lemma overflow_threshold_le: "overflow_threshold \<le> 100 * 2 ^ 1020"
proof -
  define c :: real where "c = 2 ^ 1020"
  have e: "(1020::nat) + 4 = 1024" by simp
  have "overflow_threshold = (2::real) ^ 1024"
    by (simp only: overflow_threshold_def max_exponent_def power_int_numeral)
  also have "(2::real) ^ 1024 = 2 ^ (1020 + 4)" by (simp only: e)
  also have "\<dots> = 2 ^ 1020 * 2 ^ 4" by (rule power_add)
  finally have "overflow_threshold = c * 2 ^ 4" unfolding c_def .
  moreover have "(2::real) ^ 4 = 16" by simp
  ultimately have "overflow_threshold = c * 16" by (simp only:)
  moreover have "0 \<le> c" unfolding c_def by (rule zero_le_power) simp
  ultimately have "overflow_threshold \<le> 100 * c" by linarith
  then show ?thesis unfolding c_def .
qed

lemma formatMoS_percentage:
  assumes "x \<le> 10" "- overflow_threshold < round_real (x * 100)"
  shows "formatMoS ts (Some (Finite x)) = toFixed0 ts (Finite (round_real (x * 100))) @ ''%''"
proof -
  from assms(1) have "round_real (x * 100) \<le> 1000" by (rule product_le_1000)
  with assms(2) have "\<bar>round_real (x * 100)\<bar> < overflow_threshold"
    using overflow_threshold_large by linarith
  then have "round_double (x * 100) = Finite (round_real (x * 100))"
    by (rule round_double_finite)
  with assms(1) show ?thesis by (simp add: formatMoS_def)
qed

lemma formatMoS_overflow:
  assumes "x \<le> 10" "x * 100 \<le> - overflow_threshold"
  shows "formatMoS ts (Some (Finite x)) = ''-Infinity%''"
proof -
  from assms(2) have "round_double (x * 100) = NegInfinity"
    by (rule round_double_overflow_neg)
  with assms(1) show ?thesis by (simp add: formatMoS_def)
qed

lemma digit_in_digits: "n < 10 \<Longrightarrow> ''0123456789'' ! n \<in> set ''0123456789''"
  by (rule nth_mem) simp

lemma decimal_digits: "set (decimal n) \<subseteq> set ''0123456789''"
proof (induction n rule: decimal.induct)
  case (1 n)
  show ?case
  proof (cases "n < 10")
    case True
    then have "decimal n = [''0123456789'' ! n]" by (simp add: decimal.simps)
    with digit_in_digits [OF True] show ?thesis by simp
  next
    case False
    then have "decimal n = decimal (n div 10) @ [''0123456789'' ! (n mod 10)]"
      by (subst decimal.simps) simp
    moreover have "''0123456789'' ! (n mod 10) \<in> set ''0123456789''"
      by (rule digit_in_digits) simp
    ultimately show ?thesis using 1 [OF False] by simp
  qed
qed

lemma below_10_21:
  assumes "y \<le> 1000" "- (10 ^ 21) < y"
  shows "\<not> 10 ^ 21 \<le> \<bar>y :: real\<bar>"
proof -
  define k :: real where "k = 10 ^ 21"
  have "1000 < k" unfolding k_def by simp
  moreover from assms(2) have "- k < y" unfolding k_def .
  ultimately have "\<not> k \<le> \<bar>y\<bar>" using assms(1) by linarith
  then show ?thesis unfolding k_def .
qed

lemma toFixed0_small:
  assumes "\<not> 10 ^ 21 \<le> \<bar>y :: real\<bar>"
  shows "toFixed0 ts (Finite y) =
           (if y < 0 then ''-'' else '''') @ decimal (nat \<lfloor>\<bar>y\<bar> + 1 / 2\<rfloor>)"
  unfolding toFixed0.simps using assms by (simp only: if_False)

lemma sign_digits_percent:
  "set ((if b then ''-'' else '''') @ decimal n @ ''%'') \<subseteq> set ''-0123456789%''"
proof -
  have "set (decimal n) \<subseteq> set ''-0123456789%''"
    using decimal_digits [of n] by (rule subset_trans) (simp add: subset_iff)
  moreover have "set (if b then ''-'' else '''') \<subseteq> set ''-0123456789%''"
    by (cases b) simp_all
  moreover have "set ''%'' \<subseteq> set ''-0123456789%''" by simp
  ultimately show ?thesis by (simp only: set_append Un_subset_iff simp_thms)
qed

lemma formatMoS_whole_number:
  assumes "x \<le> 10" "- (10 ^ 21) < round_real (x * 100)"
  shows "formatMoS ts (Some (Finite x)) =
           (if round_real (x * 100) < 0 then ''-'' else '''')
           @ decimal (nat \<lfloor>\<bar>round_real (x * 100)\<bar> + 1 / 2\<rfloor>) @ ''%''"
proof -
  from assms(1) have u: "round_real (x * 100) \<le> 1000" by (rule product_le_1000)
  from assms(2) have "- overflow_threshold < round_real (x * 100)"
    using overflow_threshold_ge by linarith
  with assms(1) have "formatMoS ts (Some (Finite x))
      = toFixed0 ts (Finite (round_real (x * 100))) @ ''%''"
    by (rule formatMoS_percentage)
  also have "toFixed0 ts (Finite (round_real (x * 100))) =
           (if round_real (x * 100) < 0 then ''-'' else '''')
           @ decimal (nat \<lfloor>\<bar>round_real (x * 100)\<bar> + 1 / 2\<rfloor>)"
    using u assms(2) by (intro toFixed0_small below_10_21)
  finally show ?thesis by simp
qed

text \<open>
  C10 (as amended). formatMoS returns 'N/A' exactly when its input is null/undefined
  or not a finite number; it returns '>10x' for every finite input above 10; for every
  other finite input whose product with 100 (the double the multiplication returns)
  stays inside the range of a double it returns toFixed(0) of that product followed
  by '%', which for a product above \<open>-10^21\<close> is a sign, the digits of the whole number
  nearest to the product and '%'. Only ratios above 10 are clamped.
\<close>

theorem formatMoS_cases:
  "(formatMoS ts v = ''N/A'' \<longleftrightarrow> v = None \<or> (\<exists>n. v = Some n \<and> \<not> isFinite n))
   \<and> (10 < x \<longrightarrow> formatMoS ts (Some (Finite x)) = ''>10x'')
   \<and> (x \<le> 10 \<and> - overflow_threshold < round_real (x * 100) \<longrightarrow>
        formatMoS ts (Some (Finite x))
          = toFixed0 ts (Finite (round_real (x * 100))) @ ''%'')
   \<and> (x \<le> 10 \<and> - (10 ^ 21) < round_real (x * 100) \<longrightarrow>
        formatMoS ts (Some (Finite x)) =
          (if round_real (x * 100) < 0 then ''-'' else '''')
          @ decimal (nat \<lfloor>\<bar>round_real (x * 100)\<bar> + 1 / 2\<rfloor>) @ ''%''
        \<and> set (formatMoS ts (Some (Finite x))) \<subseteq> set ''-0123456789%'')"
proof (intro conjI impI)
  show "formatMoS ts v = ''N/A'' \<longleftrightarrow> v = None \<or> (\<exists>n. v = Some n \<and> \<not> isFinite n)"
    by (rule formatMoS_na_iff)
next
  assume "10 < x"
  then show "formatMoS ts (Some (Finite x)) = ''>10x''" by (rule formatMoS_over_10)
next
  assume "x \<le> 10 \<and> - overflow_threshold < round_real (x * 100)"
  then show "formatMoS ts (Some (Finite x))
      = toFixed0 ts (Finite (round_real (x * 100))) @ ''%''"
    using formatMoS_percentage by blast
next
  assume a: "x \<le> 10 \<and> - (10 ^ 21) < round_real (x * 100)"
  then show w: "formatMoS ts (Some (Finite x)) =
      (if round_real (x * 100) < 0 then ''-'' else '''')
      @ decimal (nat \<lfloor>\<bar>round_real (x * 100)\<bar> + 1 / 2\<rfloor>) @ ''%''"
    using formatMoS_whole_number by blast
  show "set (formatMoS ts (Some (Finite x))) \<subseteq> set ''-0123456789%''"
    unfolding w by (rule sign_digits_percent)
qed

text \<open>
  The doubles of the ratios 0.015, 0.705 and 0.833 and their products with 100: the
  products of the first two are the ties 1.5 and 70.5, which toFixed(0) rounds up.
\<close>

lemma percent_0_015: "lit 0.015 \<le> 10 \<and> round_real (lit 0.015 * 100) = 1.5"
proof -
  have l: "lit 0.015 = 1080863910568919 / 2 ^ 56"
    unfolding lit_def
    by (subst round_real_eval [of "- 7"]) (simp_all add: round_half_even_def frac_def)
  have "round_real (1080863910568919 / 2 ^ 56 * 100) = 1.5"
    by (subst round_real_eval [of 0]) (simp_all add: round_half_even_def frac_def)
  then show ?thesis unfolding l by simp
qed

lemma percent_0_705: "lit 0.705 \<le> 10 \<and> round_real (lit 0.705 * 100) = 70.5"
proof -
  have l: "lit 0.705 = 6350075474592399 / 2 ^ 53"
    unfolding lit_def
    by (subst round_real_eval [of "- 1"]) (simp_all add: round_half_even_def frac_def)
  have "round_real (6350075474592399 / 2 ^ 53 * 100) = 70.5"
    by (subst round_real_eval [of 6]) (simp_all add: round_half_even_def frac_def)
  then show ?thesis unfolding l by simp
qed

lemma percent_0_833:
  "lit 0.833 \<le> 10 \<and> round_real (lit 0.833 * 100) = 5861716389999411 / 2 ^ 46"
proof -
  have l: "lit 0.833 = 3751498489599623 / 2 ^ 52"
    unfolding lit_def
    by (subst round_real_eval [of "- 1"]) (simp_all add: round_half_even_def frac_def)
  have "round_real (3751498489599623 / 2 ^ 52 * 100) = 5861716389999411 / 2 ^ 46"
    by (subst round_real_eval [of 6]) (simp_all add: round_half_even_def frac_def)
  then show ?thesis unfolding l by simp
qed

lemma percent_minus_half: "round_real (- 0.5 * 100) = - 50"
  by (subst round_real_eval [of 5]) (simp_all add: round_half_even_def frac_def)

lemma percent_10: "round_real (10 * 100) = 1000"
  by (subst round_real_eval [of 9]) (simp_all add: round_half_even_def frac_def)

lemma percent_minus_1000: "round_real (- 1000 * 100) = - 100000"
  by (subst round_real_eval [of 16]) (simp_all add: round_half_even_def frac_def)

theorem formatMoS_cases_witness:
  "formatMoS no_exponent None = ''N/A''
   \<and> formatMoS no_exponent (Some NaN) = ''N/A''
   \<and> formatMoS no_exponent (Some Infinity) = ''N/A''
   \<and> formatMoS no_exponent (Some (Finite 11)) = ''>10x''
   \<and> formatMoS no_exponent (Some (Finite (lit 0.015))) = ''2%''
   \<and> formatMoS no_exponent (Some (Finite (lit 0.705))) = ''71%''
   \<and> formatMoS no_exponent (Some (Finite (lit 0.833))) = ''83%''
   \<and> formatMoS no_exponent (Some (Finite 10)) = ''1000%''
   \<and> formatMoS no_exponent (Some (Finite (- 0.5))) = ''-50%''"
proof -
  have "formatMoS no_exponent None = ''N/A''
      \<and> formatMoS no_exponent (Some (Finite 11)) = ''>10x''"
    using formatMoS_cases [of no_exponent None 11] by simp
  moreover have "formatMoS no_exponent (Some NaN) = ''N/A''
      \<and> formatMoS no_exponent (Some (Finite (lit 0.015))) = ''2%''"
  proof -
    have e: "round_real (lit 0.015 * 100) = 1.5" and b: "lit 0.015 \<le> 10"
      using percent_0_015 by blast+
    show ?thesis
      using b formatMoS_cases [of no_exponent "Some NaN" "lit 0.015", unfolded e]
      by (simp add: decimal.simps)
  qed
  moreover have "formatMoS no_exponent (Some Infinity) = ''N/A''
      \<and> formatMoS no_exponent (Some (Finite (lit 0.705))) = ''71%''"
  proof -
    have e: "round_real (lit 0.705 * 100) = 70.5" and b: "lit 0.705 \<le> 10"
      using percent_0_705 by blast+
    show ?thesis
      using b formatMoS_cases [of no_exponent "Some Infinity" "lit 0.705", unfolded e]
      by (simp add: decimal.simps)
  qed
  moreover have "formatMoS no_exponent (Some (Finite (lit 0.833))) = ''83%''"
  proof -
    have e: "round_real (lit 0.833 * 100) = 5861716389999411 / 2 ^ 46"
      and b: "lit 0.833 \<le> 10"
      using percent_0_833 by blast+
    show ?thesis
      using b formatMoS_cases [of no_exponent None "lit 0.833", unfolded e]
      by (simp add: decimal.simps)
  qed
  moreover have "formatMoS no_exponent (Some (Finite 10)) = ''1000%''"
    using formatMoS_cases [of no_exponent None 10, unfolded percent_10]
    by (simp add: decimal.simps)
  moreover have "formatMoS no_exponent (Some (Finite (- 0.5))) = ''-50%''"
    using formatMoS_cases [of no_exponent None "- 0.5", unfolded percent_minus_half]
    by (simp add: decimal.simps)
  ultimately show ?thesis by blast
qed

text \<open>
  C10 as first stated clamps extreme ratios and lets no infinity reach the rendered
  output. The ratio \<open>-1000\<close> is rendered in full, as '-100000%'. The finite input
  \<open>-(2^1020)\<close> is not above 10, its product with 100 is below the range of a double
  and so is \<open>-Infinity\<close>, and the output is '-Infinity%'.
\<close>

theorem formatMoS_overflow_counterexample:
  "formatMoS no_exponent (Some (Finite (- 1000))) = ''-100000%''
   \<and> isFinite (Finite (- (2 ^ 1020)))
   \<and> formatMoS no_exponent (Some (Finite (- (2 ^ 1020)))) = ''-Infinity%''"
proof (intro conjI)
  show "formatMoS no_exponent (Some (Finite (- 1000))) = ''-100000%''"
    using formatMoS_whole_number [of "- 1000" no_exponent, unfolded percent_minus_1000]
    by (simp add: decimal.simps)
  show "isFinite (Finite (- (2 ^ 1020)))" by (simp only: isFinite.simps)
  show "formatMoS no_exponent (Some (Finite (- (2 ^ 1020)))) = ''-Infinity%''"
  proof (rule formatMoS_overflow)
    define c :: real where "c = 2 ^ 1020"
    have c: "0 \<le> c" unfolding c_def by (rule zero_le_power) simp
    then have "- c \<le> 10" by linarith
    then show "- (2 ^ 1020) \<le> (10::real)" unfolding c_def .
    have "overflow_threshold \<le> 100 * c" unfolding c_def by (rule overflow_threshold_le)
    then have "- c * 100 \<le> - overflow_threshold" by linarith
    then show "- (2 ^ 1020) * 100 \<le> - overflow_threshold" unfolding c_def .
  qed
qed

end
